theory Spec2Isabelle
  imports Main "HOL-Library.Sublist"
begin

section \<open>Strings\<close>

text \<open>
  JavaScript strings are modelled as \<open>string\<close> (lists of 8-bit characters, the UTF-8
  encoding of the text). The source only concatenates strings and replaces single ASCII
  characters, which commutes with the encoding.
\<close>

definition CR :: char where "CR = CHR 0x0D"
definition LF :: char where "LF = CHR 0x0A"
definition ETX :: char where "ETX = CHR 0x03"
definition ESC :: char where "ESC = CHR 0x1B"
definition SQ :: char where "SQ = CHR 0x27"
definition BSL :: char where "BSL = CHR 0x5C"
definition SP :: char where "SP = CHR 0x20"

text \<open>\<open>s.replace(/c/g, r)\<close> for a one-character pattern \<open>c\<close> and a replacement \<open>r\<close>
  without \<open>$\<close> patterns: every occurrence of \<open>c\<close> is replaced, left to right.\<close>

fun replace_all :: "char \<Rightarrow> string \<Rightarrow> string \<Rightarrow> string" where
  "replace_all c r [] = []"
| "replace_all c r (x # xs) = (if x = c then r @ replace_all c r xs else x # replace_all c r xs)"

text \<open>\<open>String.prototype.toLowerCase\<close> on the ASCII letters (the registry keys are ASCII).\<close>

definition toLowerCase_char :: "char \<Rightarrow> char" where
  "toLowerCase_char c =
     (case map_of (zip ''ABCDEFGHIJKLMNOPQRSTUVWXYZ'' ''abcdefghijklmnopqrstuvwxyz'') c of
        Some d \<Rightarrow> d | None \<Rightarrow> c)"

definition toLowerCase :: "string \<Rightarrow> string" where
  "toLowerCase s = map toLowerCase_char s"

text \<open>\<open>Array.prototype.join(' ')\<close>.\<close>

fun join_space :: "string list \<Rightarrow> string" where
  "join_space [] = []"
| "join_space [x] = x"
| "join_space (x # y # ys) = x @ [SP] @ join_space (y # ys)"

section \<open>Language registry\<close>

record langConfig =
  cmd :: string
  args :: "string list"

definition LANGUAGE_COMMANDS :: "(string \<times> langConfig) list" where
  "LANGUAGE_COMMANDS =
    [(''bash'', \<lparr>cmd = ''bash'', args = [''-c'']\<rparr>),
     (''sh'', \<lparr>cmd = ''sh'', args = [''-c'']\<rparr>),
     (''shell'', \<lparr>cmd = ''bash'', args = [''-c'']\<rparr>),
     (''zsh'', \<lparr>cmd = ''zsh'', args = [''-c'']\<rparr>),
     (''python'', \<lparr>cmd = ''python3'', args = [''-c'']\<rparr>),
     (''python3'', \<lparr>cmd = ''python3'', args = [''-c'']\<rparr>),
     (''py'', \<lparr>cmd = ''python3'', args = [''-c'']\<rparr>),
     (''javascript'', \<lparr>cmd = ''node'', args = [''-e'']\<rparr>),
     (''js'', \<lparr>cmd = ''node'', args = [''-e'']\<rparr>),
     (''node'', \<lparr>cmd = ''node'', args = [''-e'']\<rparr>),
     (''powershell'', \<lparr>cmd = ''powershell'', args = [''-Command'']\<rparr>),
     (''ps1'', \<lparr>cmd = ''powershell'', args = [''-Command'']\<rparr>),
     (''cmd'', \<lparr>cmd = ''cmd'', args = [''/c'']\<rparr>),
     (''batch'', \<lparr>cmd = ''cmd'', args = [''/c'']\<rparr>)]"

text \<open>
  \<open>LANGUAGE_COMMANDS[lang]\<close> is a property read on a plain object: besides the fourteen
  own keys it finds the properties inherited from \<open>Object.prototype\<close>. Of those only
  \<open>constructor\<close> and \<open>__proto__\<close> are unchanged by \<open>toLowerCase\<close>; both are truthy and
  have neither \<open>cmd\<close> nor \<open>args\<close>.
\<close>

datatype js_lookup = Undefined | Inherited | Config langConfig

definition lookup_language :: "string \<Rightarrow> js_lookup" where
  "lookup_language lang =
     (case map_of LANGUAGE_COMMANDS lang of
        Some c \<Rightarrow> Config c
      | None \<Rightarrow> if lang = ''constructor'' \<or> lang = ''__proto__'' then Inherited else Undefined)"

datatype platform = Linux | Win32 | OtherPlatform

definition platform_override :: "platform \<Rightarrow> string \<Rightarrow> langConfig \<Rightarrow> langConfig" where
  "platform_override pf lang c =
     (if pf = Win32 then
        (if lang = ''python'' \<or> lang = ''python3'' \<or> lang = ''py'' then c\<lparr>cmd := ''python''\<rparr> else c)
      else
        (if lang = ''powershell'' \<or> lang = ''ps1'' then c\<lparr>cmd := ''pwsh''\<rparr> else c))"

section \<open>Building the invocation\<close>

definition escapedCode :: "string \<Rightarrow> string" where
  "escapedCode code = replace_all SQ [SQ, BSL, SQ, SQ] code"

definition wrapper_command :: "langConfig \<Rightarrow> string \<Rightarrow> string" where
  "wrapper_command c code =
     cmd c @ [SP] @ join_space (args c) @ [SP] @ [SQ] @ escapedCode code @ [SQ]"

text \<open>The pair \<open>(spawnCmd, spawnArgs)\<close> handed to \<open>spawn\<close>.\<close>

definition spawn_invocation :: "platform \<Rightarrow> langConfig \<Rightarrow> string \<Rightarrow> string \<times> string list" where
  "spawn_invocation pf c code =
     (if pf = Linux then (''script'', [''-qfec'', wrapper_command c code, ''/dev/null''])
      else (cmd c, args c @ [code]))"

section \<open>Word splitting of the POSIX shell\<close>

text \<open>
  \<open>script -c\<close> hands its command string to a shell. The fragment of the POSIX shell
  grammar that the wrapper's command string uses is modelled here: blanks separate
  words; inside single quotes every character is literal up to the next single quote;
  outside quotes a backslash makes the next character literal; quoted and unquoted
  pieces that touch form one word. Any other shell metacharacter outside quotes is
  outside the fragment (\<open>None\<close>), as is an unterminated quote.
\<close>

datatype quoting = Unquoted | SingleQuoted

definition sh_meta :: "char set" where
  "sh_meta = set ''\"$`;&|<>()*?[]#~=%!{}'' \<union> {LF, CHR 0x09}"

definition word_so_far :: "string option \<Rightarrow> string" where
  "word_so_far w = (case w of None \<Rightarrow> [] | Some t \<Rightarrow> t)"

fun sh_split :: "quoting \<Rightarrow> string option \<Rightarrow> string \<Rightarrow> string list option" where
  "sh_split Unquoted w [] = Some (case w of None \<Rightarrow> [] | Some t \<Rightarrow> [t])"
| "sh_split SingleQuoted w [] = None"
| "sh_split SingleQuoted w (c # cs) =
     (if c = SQ then sh_split Unquoted w cs
      else sh_split SingleQuoted (Some (word_so_far w @ [c])) cs)"
| "sh_split Unquoted w (c # cs) =
     (if c = SP then
        (case w of None \<Rightarrow> sh_split Unquoted None cs
         | Some t \<Rightarrow> map_option ((#) t) (sh_split Unquoted None cs))
      else if c = SQ then sh_split SingleQuoted (Some (word_so_far w)) cs
      else if c = BSL then
        (case cs of [] \<Rightarrow> None
         | d # ds \<Rightarrow> if d = LF then None else sh_split Unquoted (Some (word_so_far w @ [d])) ds)
      else if c \<in> sh_meta then None
      else sh_split Unquoted (Some (word_so_far w @ [c])) cs)"

definition sh_words :: "string \<Rightarrow> string list option" where
  "sh_words s = sh_split Unquoted None s"

definition plain_word :: "string \<Rightarrow> bool" where
  "plain_word t \<longleftrightarrow> t \<noteq> [] \<and> (\<forall>c \<in> set t. c \<noteq> SP \<and> c \<noteq> SQ \<and> c \<noteq> BSL \<and> c \<notin> sh_meta)"

section \<open>Sessions, child processes and the host state\<close>

type_synonym sid = nat
type_synonym pid = nat

datatype signal = SIGINT | SIGTERM | SIGKILL

text \<open>
  The value an \<open>execute-code\<close> call resolves with: the completion record
  \<open>{stdout, stderr, exitCode, wasInterrupted}\<close> (\<open>exitCode\<close> is \<open>null\<close> when the child
  was ended by a signal) or an object with an \<open>error\<close> message and, from the \<open>error\<close>
  listener only, the output accumulated so far.
\<close>

datatype exec_result =
    Completion string string "int option" bool
  | Failure string "string option" "string option"

datatype stream = Stdout | Stderr

text \<open>Messages sent to a terminal window's \<open>webContents\<close>.\<close>

datatype window_message =
    TerminalOutput stream string
  | TerminalCompleteMsg exec_result

text \<open>
  One entry of the \<open>terminals\<close> map. \<open>window_usable\<close> stands for the test
  \<open>termData.window && !termData.window.isDestroyed()\<close>, the only use the handlers make
  of the window besides sending to it.
\<close>

record termData =
  window_usable :: bool
  activeProcess :: "pid option"
  buffer :: string
  isExecutionComplete :: bool
  lastExecutionResult :: "exec_result option"
  wasInterrupted :: bool

text \<open>
  A \<open>ChildProcess\<close> handle together with what the closures registered on it capture:
  the session object (\<open>owner\<close>), the accumulators \<open>stdout\<close> and \<open>stderr\<close>, and the
  promise of the call (\<open>settled\<close>). \<open>stdin_writes\<close> lists the arguments of the
  \<open>stdin.write\<close> calls in order, \<open>signals\<close> the signals delivered to the process.
  \<open>running\<close> says that the operating-system process still exists, \<open>closed\<close> that the
  \<open>close\<close> event has been emitted.
\<close>

record childProcess =
  owner :: sid
  spawnfile :: string
  spawnargs :: "string list"
  stdout_acc :: string
  stderr_acc :: string
  has_stdin :: bool
  stdin_writable :: bool
  stdin_writes :: "string list"
  killed :: bool
  running :: bool
  closed :: bool
  signals :: "signal list"
  settled :: "exec_result option"

text \<open>
  The main process. Session objects live in \<open>objects\<close>, indexed by the id they were
  created under (ids are never reused, so the id names the object); \<open>terminals\<close> holds
  the keys currently in the map. A closure keeps its session object after the key has
  been deleted. \<open>timers\<close> are the pending \<open>setTimeout\<close> callbacks with the handle each
  captured and the time it is due; \<open>now\<close> is the clock in milliseconds. \<open>sent\<close> lists
  the messages sent to terminal windows, oldest first.
\<close>

record host =
  terminals :: "sid set"
  objects :: "sid \<Rightarrow> termData option"
  nextTerminalId :: nat
  procs :: "pid \<Rightarrow> childProcess option"
  nextPid :: nat
  timers :: "(pid \<times> nat) list"
  now :: nat
  sent :: "(sid \<times> window_message) list"

definition initial_host :: host where
  "initial_host = \<lparr>terminals = {}, objects = (\<lambda>_. None), nextTerminalId = 1,
     procs = (\<lambda>_. None), nextPid = 0, timers = [], now = 0, sent = []\<rparr>"

text \<open>\<open>terminals.get(sessionId)\<close>; an absent argument is \<open>undefined\<close>, which is no key.\<close>

definition terminals_get :: "host \<Rightarrow> sid option \<Rightarrow> termData option" where
  "terminals_get h sessionId =
     (case sessionId of None \<Rightarrow> None
      | Some i \<Rightarrow> if i \<in> terminals h then objects h i else None)"

definition update_term :: "sid \<Rightarrow> (termData \<Rightarrow> termData) \<Rightarrow> host \<Rightarrow> host" where
  "update_term i f h = h\<lparr>objects := (objects h)(i := map_option f (objects h i))\<rparr>"

definition update_proc :: "pid \<Rightarrow> (childProcess \<Rightarrow> childProcess) \<Rightarrow> host \<Rightarrow> host" where
  "update_proc p f h = h\<lparr>procs := (procs h)(p := map_option f (procs h p))\<rparr>"

text \<open>Sending to the session's window, guarded as in the source.\<close>

definition send_to_window :: "sid \<Rightarrow> window_message \<Rightarrow> host \<Rightarrow> host" where
  "send_to_window i m h =
     (case objects h i of
        Some td \<Rightarrow> if window_usable td then h\<lparr>sent := sent h @ [(i, m)]\<rparr> else h
      | None \<Rightarrow> h)"

text \<open>\<open>resolve(v)\<close>: a promise keeps the first value it is resolved with.\<close>

definition resolve :: "pid \<Rightarrow> exec_result \<Rightarrow> host \<Rightarrow> host" where
  "resolve p v h =
     update_proc p (\<lambda>c. case settled c of None \<Rightarrow> c\<lparr>settled := Some v\<rparr> | Some _ \<Rightarrow> c) h"

text \<open>
  \<open>subprocess.kill(sig)\<close> of Node's \<open>child_process\<close>: while the process exists the signal
  is delivered and \<open>killed\<close> becomes true; after it has exited nothing happens. \<open>killed\<close>
  therefore records that a signal was sent through \<open>kill\<close>, not that the process ended.
\<close>

definition kill :: "signal \<Rightarrow> childProcess \<Rightarrow> childProcess" where
  "kill sig c = (if running c then c\<lparr>signals := signals c @ [sig], killed := True\<rparr> else c)"

definition stdin_write :: "string \<Rightarrow> childProcess \<Rightarrow> childProcess" where
  "stdin_write t c = c\<lparr>stdin_writes := stdin_writes c @ [t]\<rparr>"

section \<open>The handlers\<close>

subsection \<open>\<open>show-execution-modal\<close>\<close>

text \<open>The initial buffer: the command echoed in bold cyan after the prompt \<open>U+2514 U+2500 $\<close>.\<close>

definition command_echo :: "string \<Rightarrow> string" where
  "command_echo code =
     [ESC] @ ''[1;36m'' @ [CHR 0xE2, CHR 0x94, CHR 0x94, CHR 0xE2, CHR 0x94, CHR 0x80] @ ''$ ''
       @ code @ [ESC] @ ''[0m'' @ [CR, LF]"

definition show_execution_modal :: "string \<Rightarrow> string \<Rightarrow> host \<Rightarrow> sid \<times> host" where
  "show_execution_modal language code h =
     (let sessionId = nextTerminalId h in
      (sessionId,
       h\<lparr>nextTerminalId := sessionId + 1,
         terminals := insert sessionId (terminals h),
         objects := (objects h)(sessionId := Some
           \<lparr>window_usable = True, activeProcess = None, buffer = command_echo code,
            isExecutionComplete = False, lastExecutionResult = None,
            wasInterrupted = False\<rparr>)\<rparr>))"

subsection \<open>\<open>execute-code\<close>\<close>

text \<open>
  What \<open>spawn\<close> does is decided outside the program: it throws, or it returns a handle
  (with or without a \<open>stdin\<close> stream). A handle that could not start its program reports
  that later through its \<open>error\<close> event.
\<close>

datatype spawn_outcome = SpawnThrows string | SpawnReturns bool

datatype exec_outcome = Resolved exec_result | Pending pid

text \<open>The message of the \<open>TypeError\<close> raised by \<open>[...langConfig.args, code]\<close> when
  \<open>langConfig.args\<close> is \<open>undefined\<close> (the wording is the engine's).\<close>

definition not_iterable_message :: string where
  "not_iterable_message = ''langConfig.args is not iterable''"

definition new_child :: "sid \<Rightarrow> string \<times> string list \<Rightarrow> bool \<Rightarrow> childProcess" where
  "new_child i invocation with_stdin =
     \<lparr>owner = i, spawnfile = fst invocation, spawnargs = snd invocation, stdout_acc = [], stderr_acc = [],
      has_stdin = with_stdin, stdin_writable = with_stdin, stdin_writes = [], killed = False,
      running = True, closed = False, signals = [], settled = None\<rparr>"

definition reset_execution :: "termData \<Rightarrow> termData" where
  "reset_execution td =
     td\<lparr>wasInterrupted := False, isExecutionComplete := False, lastExecutionResult := None\<rparr>"

definition register_child :: "childProcess \<Rightarrow> host \<Rightarrow> pid \<times> host" where
  "register_child c h =
     (let p = nextPid h in (p, (h\<lparr>procs := (procs h)(p := Some c)\<rparr>)\<lparr>nextPid := p + 1\<rparr>))"

text \<open>The body of the handler once the session \<open>i\<close> has been found.\<close>

definition run_in_session ::
  "platform \<Rightarrow> spawn_outcome \<Rightarrow> string \<Rightarrow> string \<Rightarrow> sid \<Rightarrow> host \<Rightarrow> exec_outcome \<times> host" where
  "run_in_session pf env code language i h =
     (let h1 = update_term i reset_execution h;
          lang = toLowerCase language
      in case lookup_language lang of
           Undefined \<Rightarrow> (Resolved (Failure (''Unsupported language: '' @ language) None None), h1)
         | Inherited \<Rightarrow> (Resolved (Failure not_iterable_message None None), h1)
         | Config c0 \<Rightarrow>
             (case env of
                SpawnThrows msg \<Rightarrow> (Resolved (Failure msg None None), h1)
              | SpawnReturns with_stdin \<Rightarrow>
                  let invocation = spawn_invocation pf (platform_override pf lang c0) code;
                      (p, h2) = register_child (new_child i invocation with_stdin) h1
                  in (Pending p, update_term i (\<lambda>td. td\<lparr>activeProcess := Some p\<rparr>) h2)))"

definition execute_code ::
  "platform \<Rightarrow> spawn_outcome \<Rightarrow> string \<Rightarrow> string \<Rightarrow> sid option \<Rightarrow> host \<Rightarrow> exec_outcome \<times> host" where
  "execute_code pf env code language sessionId h =
     (case sessionId of
        None \<Rightarrow> (Resolved (Failure ''Session not found'' None None), h)
      | Some i \<Rightarrow>
          (case terminals_get h (Some i) of
             None \<Rightarrow> (Resolved (Failure ''Session not found'' None None), h)
           | Some _ \<Rightarrow> run_in_session pf env code language i h))"

subsection \<open>Listeners on the child process\<close>

definition on_data :: "stream \<Rightarrow> pid \<Rightarrow> string \<Rightarrow> host \<Rightarrow> host" where
  "on_data st p text h =
     (case procs h p of
        None \<Rightarrow> h
      | Some c \<Rightarrow>
          let h1 = update_proc p
                     (\<lambda>c. case st of Stdout \<Rightarrow> c\<lparr>stdout_acc := stdout_acc c @ text\<rparr>
                                    | Stderr \<Rightarrow> c\<lparr>stderr_acc := stderr_acc c @ text\<rparr>) h;
              h2 = update_term (owner c) (\<lambda>td. td\<lparr>buffer := buffer td @ text\<rparr>) h1
          in send_to_window (owner c) (TerminalOutput st text) h2)"

definition on_error :: "pid \<Rightarrow> string \<Rightarrow> host \<Rightarrow> host" where
  "on_error p msg h =
     (case procs h p of
        None \<Rightarrow> h
      | Some c \<Rightarrow> resolve p (Failure msg (Some (stdout_acc c)) (Some (stderr_acc c))) h)"

definition completion_of :: "childProcess \<Rightarrow> int option \<Rightarrow> termData \<Rightarrow> exec_result" where
  "completion_of c exitCode td = Completion (stdout_acc c) (stderr_acc c) exitCode (wasInterrupted td)"

text \<open>
  The \<open>close\<close> listener reads \<open>wasInterrupted\<close> from the session object it captured.
  That object exists for every child that was spawned, so the first \<open>None\<close> branches
  below are never taken in a run from \<open>initial_host\<close>.
\<close>

definition on_close :: "pid \<Rightarrow> int option \<Rightarrow> host \<Rightarrow> host" where
  "on_close p exitCode h =
     (case procs h p of
        None \<Rightarrow> h
      | Some c \<Rightarrow>
          (case objects h (owner c) of
             None \<Rightarrow> h
           | Some td \<Rightarrow>
               let r = completion_of c exitCode td;
                   h1 = update_term (owner c)
                          (\<lambda>td. td\<lparr>activeProcess := None, isExecutionComplete := True,
                                   lastExecutionResult := Some r\<rparr>) h
               in resolve p r h1))"

subsection \<open>Window closure\<close>

definition on_window_closed :: "sid \<Rightarrow> host \<Rightarrow> host" where
  "on_window_closed i h =
     (let h1 = (case terminals_get h (Some i) of
                  Some td \<Rightarrow> (case activeProcess td of
                                Some p \<Rightarrow> update_proc p (kill SIGTERM) h
                              | None \<Rightarrow> h)
                | None \<Rightarrow> h)
      in h1\<lparr>terminals := terminals h1 - {i}\<rparr>)"

subsection \<open>\<open>kill-execution\<close> and its timer\<close>

definition grace_ms :: nat where
  "grace_ms = 3000"

definition kill_execution :: "sid \<Rightarrow> host \<Rightarrow> host" where
  "kill_execution i h =
     (case terminals_get h (Some i) of
        None \<Rightarrow> h
      | Some td \<Rightarrow>
          (case activeProcess td of
             None \<Rightarrow> h
           | Some p \<Rightarrow>
               let h1 = update_term i (\<lambda>td. td\<lparr>wasInterrupted := True\<rparr>) h;
                   h2 = update_proc p
                          (\<lambda>c. if has_stdin c \<and> stdin_writable c then stdin_write [ETX] c
                               else kill SIGINT c) h1
               in h2\<lparr>timers := timers h2 @ [(p, now h2 + grace_ms)]\<rparr>))"

definition timer_callback :: "pid \<Rightarrow> host \<Rightarrow> host" where
  "timer_callback p h =
     update_proc p (\<lambda>c. if \<not> killed c then kill SIGKILL c else c) h"

subsection \<open>\<open>terminal-complete\<close>, \<open>get-terminal-buffer\<close>, \<open>terminal-input\<close>\<close>

definition terminal_complete :: "sid \<Rightarrow> exec_result \<Rightarrow> host \<Rightarrow> host" where
  "terminal_complete i r h =
     (case terminals_get h (Some i) of
        None \<Rightarrow> h
      | Some td \<Rightarrow> send_to_window i (TerminalCompleteMsg r) h)"

record buffer_reply =
  reply_buffer :: string
  reply_isComplete :: bool
  reply_result :: "exec_result option"

definition get_terminal_buffer :: "sid \<Rightarrow> host \<Rightarrow> buffer_reply option" where
  "get_terminal_buffer i h =
     (case terminals_get h (Some i) of
        Some td \<Rightarrow> Some \<lparr>reply_buffer = buffer td, reply_isComplete = isExecutionComplete td,
                         reply_result = lastExecutionResult td\<rparr>
      | None \<Rightarrow> None)"

definition normalizedText :: "string \<Rightarrow> string" where
  "normalizedText text = replace_all CR [LF] text"

definition terminal_input :: "sid \<Rightarrow> string \<Rightarrow> host \<Rightarrow> host" where
  "terminal_input i text h =
     (case terminals_get h (Some i) of
        None \<Rightarrow> h
      | Some td \<Rightarrow>
          (case activeProcess td of
             None \<Rightarrow> h
           | Some p \<Rightarrow>
               update_proc p (\<lambda>c. if has_stdin c then stdin_write (normalizedText text) c else c) h))"

subsection \<open>\<open>close-terminal\<close> and the window's \<open>closed\<close> event\<close>

text \<open>
  Closing a window destroys it and emits \<open>closed\<close>, whose listener is
  \<open>on_window_closed\<close>; from then on \<open>isDestroyed()\<close> is true.
\<close>

definition window_closes :: "sid \<Rightarrow> host \<Rightarrow> host" where
  "window_closes i h = on_window_closed i (update_term i (\<lambda>td. td\<lparr>window_usable := False\<rparr>) h)"

definition close_terminal :: "sid \<Rightarrow> host \<Rightarrow> host" where
  "close_terminal i h =
     (case terminals_get h (Some i) of
        None \<Rightarrow> h
      | Some td \<Rightarrow> if window_usable td then window_closes i h else h)"

section \<open>Events and runs\<close>

text \<open>
  Everything that reaches the main process: the IPC messages, the events of the child
  processes and of the windows, timers coming due, and time passing. A child emits
  \<open>data\<close>, \<open>error\<close> and \<open>close\<close> only until its \<open>close\<close> has been emitted; a
  window is closed once; a timer runs once, not before it is due.
\<close>

datatype event =
    ShowExecutionModal string string
  | ExecuteCode spawn_outcome string string "sid option"
  | ChildData stream pid string
  | ChildError pid string
  | ChildExit pid
  | ChildClose pid "int option"
  | StdinUnwritable pid
  | KillExecution sid
  | TimerFires nat
  | Elapse nat
  | TerminalInput sid string
  | TerminalComplete sid exec_result
  | CloseTerminal sid
  | WindowClosed sid

definition emitting :: "host \<Rightarrow> pid \<Rightarrow> bool" where
  "emitting h p = (case procs h p of Some c \<Rightarrow> \<not> closed c | None \<Rightarrow> False)"

definition child_ends :: "pid \<Rightarrow> host \<Rightarrow> host" where
  "child_ends p h = update_proc p (\<lambda>c. c\<lparr>running := False, closed := True\<rparr>) h"

definition fire_timer :: "nat \<Rightarrow> host \<Rightarrow> host" where
  "fire_timer k h =
     (if k < length (timers h) \<and> snd (timers h ! k) \<le> now h
      then timer_callback (fst (timers h ! k))
             (h\<lparr>timers := take k (timers h) @ drop (Suc k) (timers h)\<rparr>)
      else h)"

fun step :: "platform \<Rightarrow> event \<Rightarrow> host \<Rightarrow> host" where
  "step pf (ShowExecutionModal language code) h = snd (show_execution_modal language code h)"
| "step pf (ExecuteCode env code language sessionId) h =
     snd (execute_code pf env code language sessionId h)"
| "step pf (ChildData st p text) h = (if emitting h p then on_data st p text h else h)"
| "step pf (ChildError p msg) h = (if emitting h p then on_error p msg h else h)"
| "step pf (ChildExit p) h = update_proc p (\<lambda>c. c\<lparr>running := False\<rparr>) h"
| "step pf (ChildClose p exitCode) h =
     (if emitting h p then child_ends p (on_close p exitCode h) else h)"
| "step pf (StdinUnwritable p) h = update_proc p (\<lambda>c. c\<lparr>stdin_writable := False\<rparr>) h"
| "step pf (KillExecution i) h = kill_execution i h"
| "step pf (TimerFires k) h = fire_timer k h"
| "step pf (Elapse d) h = h\<lparr>now := now h + d\<rparr>"
| "step pf (TerminalInput i text) h = terminal_input i text h"
| "step pf (TerminalComplete i r) h = terminal_complete i r h"
| "step pf (CloseTerminal i) h = close_terminal i h"
| "step pf (WindowClosed i) h =
     (case objects h i of
        Some td \<Rightarrow> if window_usable td then window_closes i h else h
      | None \<Rightarrow> h)"

fun run :: "platform \<Rightarrow> event list \<Rightarrow> host \<Rightarrow> host" where
  "run pf [] h = h"
| "run pf (e # es) h = run pf es (step pf e h)"

text \<open>The text of the output messages sent to session \<open>i\<close>'s window, in order.\<close>

fun streamed :: "sid \<Rightarrow> (sid \<times> window_message) list \<Rightarrow> string" where
  "streamed i [] = []"
| "streamed i ((j, TerminalOutput st t) # ms) = (if j = i then t @ streamed i ms else streamed i ms)"
| "streamed i ((j, TerminalCompleteMsg r) # ms) = streamed i ms"

section \<open>Example runs\<close>

text \<open>
  Session 1 is opened for \<open>read x\<close> in \<open>bash\<close> on Linux and its child (handle 0) is
  running; in \<open>finished_host\<close> the child has printed \<open>hi\<close> and closed with exit code 0;
  in \<open>failed_host\<close> the child has reported a spawn error instead.
\<close>

definition running_host :: host where
  "running_host = run Linux [ShowExecutionModal ''bash'' ''read x'',
                          ExecuteCode (SpawnReturns True) ''read x'' ''bash'' (Some 1)] initial_host"

definition bash_child :: childProcess where
  "bash_child = new_child 1 (''script'', [''-qfec'', wrapper_command \<lparr>cmd = ''bash'', args = [''-c'']\<rparr> ''read x'', ''/dev/null'']) True"

definition running_session :: termData where
  "running_session = \<lparr>window_usable = True, activeProcess = Some 0,
      buffer = command_echo ''read x'', isExecutionComplete = False, lastExecutionResult = None,
      wasInterrupted = False\<rparr>"

definition finished_host :: host where
  "finished_host = run Linux [ChildData Stdout 0 ''hi'', ChildClose 0 (Some 0)] running_host"

definition failed_host :: host where
  "failed_host = step Linux (ChildError 0 ''spawn script ENOENT'') running_host"

text \<open>
  In \<open>interrupted_host\<close> session 1 has been interrupted and three seconds have passed;
  in \<open>stuck_host\<close> the child's input stream had stopped being writable before the
  interrupt, three seconds have passed and the timer has run.
\<close>

definition interrupted_host :: host where
  "interrupted_host = run Linux [KillExecution 1, Elapse 3000] running_host"

definition stuck_host :: host where
  "stuck_host = run Linux [StdinUnwritable 0, KillExecution 1, Elapse 3000, TimerFires 0] running_host"

text \<open>
  In \<open>rerun_host\<close> the finished session 1 is executed again (child 1), and in
  \<open>reclosed_host\<close> that second child has closed too. In \<open>overlap_host\<close> a second
  execution was started on session 1 while the first child was still running, and the
  first child has then closed.
\<close>

definition rerun_host :: host where
  "rerun_host = step Linux (ExecuteCode (SpawnReturns True) ''read x'' ''bash'' (Some 1)) finished_host"

definition reclosed_host :: host where
  "reclosed_host = step Linux (ChildClose 1 (Some 0)) rerun_host"

definition overlap_host :: host where
  "overlap_host = run Linux [ExecuteCode (SpawnReturns True) ''read x'' ''bash'' (Some 1),
                             ChildClose 0 (Some 0)] running_host"


text \<open>
  In \<open>printing_host\<close> the child of session 1 has printed \<open>hi\<close> and is still open; in
  \<open>relayed_host\<close> it has closed and the renderer has relayed the value the call resolved
  with as the completion message. In \<open>failed_closed_host\<close> the child that reported the
  spawn error has closed with code \<open>-2\<close>, and the renderer has relayed the error the
  call resolved with.
\<close>

definition printing_host :: host where
  "printing_host = step Linux (ChildData Stdout 0 ''hi'') running_host"

definition relayed_host :: host where
  "relayed_host = step Linux (TerminalComplete 1 (Completion ''hi'' [] (Some 0) False)) finished_host"

definition failed_closed_host :: host where
  "failed_closed_host = run Linux [ChildClose 0 (Some (- 2)),
      TerminalComplete 1 (Failure ''spawn script ENOENT'' (Some []) (Some []))] failed_host"

section \<open>Invariants of the host state\<close>

text \<open>
  A session object is consistent when its completion flag says exactly that a result
  is stored, and a complete session has no active process.
\<close>

definition session_ok :: "termData \<Rightarrow> bool" where
  "session_ok td \<longleftrightarrow>
     (isExecutionComplete td \<longleftrightarrow> lastExecutionResult td \<noteq> None) \<and>
     (isExecutionComplete td \<longrightarrow> activeProcess td = None)"

definition sessions_ok :: "host \<Rightarrow> bool" where
  "sessions_ok h \<longleftrightarrow> (\<forall>i td. objects h i = Some td \<longrightarrow> session_ok td)"

text \<open>Session ids handed out so far are below the counter.\<close>

definition ids_fresh :: "host \<Rightarrow> bool" where
  "ids_fresh h \<longleftrightarrow> (\<forall>i. objects h i \<noteq> None \<longrightarrow> i < nextTerminalId h)"

text \<open>
  Handles in use are below the handle counter, and every handle that a session or a
  pending timer refers to is a handle that was handed out.
\<close>

definition handles_ok :: "host \<Rightarrow> bool" where
  "handles_ok h \<longleftrightarrow>
     (\<forall>p. procs h p \<noteq> None \<longrightarrow> p < nextPid h) \<and>
     (\<forall>i td p. objects h i = Some td \<and> activeProcess td = Some p \<longrightarrow> procs h p \<noteq> None) \<and>
     (\<forall>p due. (p, due) \<in> set (timers h) \<longrightarrow> procs h p \<noteq> None)"

text \<open>
  A result of a call that is an error object, as the \<open>error\<close> listener and the
  \<open>catch\<close> branch produce it.
\<close>

definition is_failure :: "exec_result option \<Rightarrow> bool" where
  "is_failure s = (case s of Some (Failure m a b) \<Rightarrow> True | _ \<Rightarrow> False)"

text \<open>
  Nothing has been sent for a session that does not exist, and every session in the
  table has a usable window.
\<close>

definition stream_ok :: "host \<Rightarrow> bool" where
  "stream_ok h \<longleftrightarrow>
     (\<forall>i. objects h i = None \<longrightarrow> streamed i (sent h) = []) \<and>
     (\<forall>i. i \<in> terminals h \<longrightarrow> (\<exists>td. objects h i = Some td \<and> window_usable td))"

text \<open>
  What the stored result of a session depends on in a child: its session, its
  accumulated output, the value its call resolved with and whether it has closed.
\<close>

definition verdict :: "childProcess \<Rightarrow> sid \<times> string \<times> string \<times> exec_result option \<times> bool" where
  "verdict c = (owner c, stdout_acc c, stderr_acc c, settled c, closed c)"

text \<open>
  Until a child closes, its call is unresolved or resolved with an error; and a stored
  result is the completion record of a closed child of the session, which is also what
  that child's call resolved with unless an error had resolved it before.
\<close>

definition settle_ok :: "childProcess \<Rightarrow> bool" where
  "settle_ok c \<longleftrightarrow> closed c \<or> settled c = None \<or> is_failure (settled c)"

definition unsettled_ok :: "host \<Rightarrow> bool" where
  "unsettled_ok h \<longleftrightarrow> (\<forall>p c. procs h p = Some c \<longrightarrow> settle_ok c)"

definition result_from :: "host \<Rightarrow> sid \<Rightarrow> exec_result \<Rightarrow> pid \<Rightarrow> childProcess \<Rightarrow> bool" where
  "result_from h i r p c \<longleftrightarrow>
     procs h p = Some c \<and> owner c = i \<and> closed c
     \<and> (\<exists>x w. r = Completion (stdout_acc c) (stderr_acc c) x w)
     \<and> (\<not> is_failure (settled c) \<longrightarrow> settled c = Some r)"

definition results_ok :: "host \<Rightarrow> bool" where
  "results_ok h \<longleftrightarrow>
     (\<forall>i td r. objects h i = Some td \<and> lastExecutionResult td = Some r \<longrightarrow>
        (\<exists>p c. result_from h i r p c))"

definition reach_ok :: "host \<Rightarrow> bool" where
  "reach_ok h \<longleftrightarrow> handles_ok h \<and> unsettled_ok h \<and> results_ok h"

text \<open>The event is an \<open>execute-code\<close> call on session \<open>i\<close>.\<close>

fun executes_on :: "sid \<Rightarrow> event \<Rightarrow> bool" where
  "executes_on i (ExecuteCode env code language sessionId) = (sessionId = Some i)"
| "executes_on i e = False"

section \<open>Basic facts about the state operations\<close>

lemma update_term_fields [simp]:
  "objects (update_term i f h) = (objects h)(i := map_option f (objects h i))"
  "terminals (update_term i f h) = terminals h"
  "procs (update_term i f h) = procs h"
  "nextPid (update_term i f h) = nextPid h"
  "nextTerminalId (update_term i f h) = nextTerminalId h"
  "timers (update_term i f h) = timers h"
  "now (update_term i f h) = now h"
  "sent (update_term i f h) = sent h"
  by (simp_all add: update_term_def)

lemma update_proc_fields [simp]:
  "procs (update_proc p g h) = (procs h)(p := map_option g (procs h p))"
  "terminals (update_proc p g h) = terminals h"
  "objects (update_proc p g h) = objects h"
  "nextPid (update_proc p g h) = nextPid h"
  "nextTerminalId (update_proc p g h) = nextTerminalId h"
  "timers (update_proc p g h) = timers h"
  "now (update_proc p g h) = now h"
  "sent (update_proc p g h) = sent h"
  by (simp_all add: update_proc_def)

lemma send_to_window_fields [simp]:
  "procs (send_to_window i m h) = procs h"
  "terminals (send_to_window i m h) = terminals h"
  "objects (send_to_window i m h) = objects h"
  "nextPid (send_to_window i m h) = nextPid h"
  "nextTerminalId (send_to_window i m h) = nextTerminalId h"
  "timers (send_to_window i m h) = timers h"
  "now (send_to_window i m h) = now h"
  by (simp_all add: send_to_window_def split: option.splits)

lemma resolve_fields [simp]:
  "terminals (resolve p v h) = terminals h"
  "objects (resolve p v h) = objects h"
  "nextPid (resolve p v h) = nextPid h"
  "nextTerminalId (resolve p v h) = nextTerminalId h"
  "timers (resolve p v h) = timers h"
  "now (resolve p v h) = now h"
  "sent (resolve p v h) = sent h"
  by (simp_all add: resolve_def)

lemmas handler_defs = show_execution_modal_def execute_code_def run_in_session_def register_child_def
  on_data_def on_error_def on_close_def on_window_closed_def kill_execution_def timer_callback_def
  terminal_complete_def terminal_input_def window_closes_def close_terminal_def child_ends_def
  fire_timer_def terminals_get_def

lemma lower_bash: "toLowerCase ''bash'' = ''bash''"
  by (simp add: toLowerCase_def toLowerCase_char_def)

lemma lookup_bash: "lookup_language ''bash'' = Config \<lparr>cmd = ''bash'', args = [''-c'']\<rparr>"
  by (simp add: lookup_language_def LANGUAGE_COMMANDS_def)

lemma lookup_cobol: "lookup_language (toLowerCase ''cobol'') = Undefined"
  by (simp add: toLowerCase_def toLowerCase_char_def lookup_language_def LANGUAGE_COMMANDS_def)

lemma running_host_eq:
  "running_host = \<lparr>terminals = {1}, objects = (\<lambda>_. None)(1 := Some running_session), nextTerminalId = 2,
     procs = (\<lambda>_. None)(0 := Some bash_child), nextPid = 1, timers = [], now = 0, sent = []\<rparr>"
  by (simp add: running_host_def initial_host_def handler_defs Let_def reset_execution_def
      lower_bash lookup_bash platform_override_def spawn_invocation_def running_session_def bash_child_def update_term_def)

lemma running_host_fields:
  "terminals_get running_host (Some 1) = Some running_session"
  "objects running_host 1 = Some running_session"
  "1 \<in> terminals running_host"
  "procs running_host 0 = Some bash_child"
  by (simp_all add: running_host_eq terminals_get_def)

lemma finished_host_eq:
  "finished_host = \<lparr>terminals = {1},
     objects = (\<lambda>_. None)(1 := Some (running_session\<lparr>activeProcess := None,
        buffer := command_echo ''read x'' @ ''hi'', isExecutionComplete := True,
        lastExecutionResult := Some (Completion ''hi'' [] (Some 0) False)\<rparr>)),
     nextTerminalId = 2,
     procs = (\<lambda>_. None)(0 := Some (bash_child\<lparr>stdout_acc := ''hi'', running := False,
        closed := True, settled := Some (Completion ''hi'' [] (Some 0) False)\<rparr>)),
     nextPid = 1, timers = [], now = 0, sent = [(1, TerminalOutput Stdout ''hi'')]\<rparr>"
  by (simp add: finished_host_def running_host_eq emitting_def on_data_def on_close_def
      child_ends_def resolve_def send_to_window_def completion_of_def update_term_def update_proc_def
      running_session_def bash_child_def new_child_def Let_def)

section \<open>Input relay\<close>

lemma replace_all_char: "replace_all c [d] s = map (\<lambda>x. if x = c then d else x) s"
  by (induction s) simp_all

text \<open>
  Claim C8. \<open>terminal-input\<close> on a session whose active process has an input stream
  writes the text to that stream with every carriage return replaced by a line feed and
  every other character unchanged, and changes nothing else; on an unknown session or a
  session without an active process it changes nothing.
\<close>

theorem terminal_input_normalizes_and_relays:
  "(terminals_get h (Some i) = Some td \<and> activeProcess td = Some p \<and> procs h p = Some c \<and> has_stdin c
      \<longrightarrow> terminal_input i text h =
            h\<lparr>procs := (procs h)(p := Some (c\<lparr>stdin_writes := stdin_writes c
                 @ [map (\<lambda>x. if x = CR then LF else x) text]\<rparr>))\<rparr>)
   \<and> (terminals_get h (Some i) = None \<or>
        (\<exists>td. terminals_get h (Some i) = Some td \<and> activeProcess td = None)
      \<longrightarrow> terminal_input i text h = h)"
  by (auto simp: terminal_input_def normalizedText_def replace_all_char update_proc_def stdin_write_def)

theorem terminal_input_normalizes_and_relays_witness:
  "terminals_get running_host (Some 1) = Some running_session \<and> activeProcess running_session = Some 0
   \<and> procs running_host 0 = Some bash_child \<and> has_stdin bash_child
   \<and> terminal_input 1 [CHR ''y'', CR] running_host =
       running_host\<lparr>procs := (procs running_host)(0 := Some (bash_child\<lparr>stdin_writes := [ [CHR ''y'', LF] ]\<rparr>))\<rparr>
   \<and> terminals_get running_host (Some 2) = None
   \<and> terminal_input 2 ''y'' running_host = running_host"
proof -
  have hyp: "terminals_get running_host (Some 1) = Some running_session \<and> activeProcess running_session = Some 0
      \<and> procs running_host 0 = Some bash_child \<and> has_stdin bash_child"
    using running_host_fields by (simp add: running_session_def bash_child_def new_child_def)
  have none: "terminals_get running_host (Some 2) = None"
    by (simp add: running_host_eq terminals_get_def)
  have w: "stdin_writes bash_child @ [map (\<lambda>x. if x = CR then LF else x) [CHR ''y'', CR] ] = [ [CHR ''y'', LF] ]"
    by (simp add: bash_child_def new_child_def CR_def)
  from terminal_input_normalizes_and_relays [of running_host 1 running_session 0 bash_child "[CHR ''y'', CR]"] hyp
  have r1: "terminal_input 1 [CHR ''y'', CR] running_host =
       running_host\<lparr>procs := (procs running_host)(0 := Some (bash_child\<lparr>stdin_writes := [ [CHR ''y'', LF] ]\<rparr>))\<rparr>"
    unfolding w by blast
  from terminal_input_normalizes_and_relays [of running_host 2 _ _ _ "''y''"] none
  have r2: "terminal_input 2 ''y'' running_host = running_host"
    by blast
  from hyp none r1 r2 show ?thesis by blast
qed

section \<open>Unsupported language tags\<close>

lemma not_registered_cobol: "map_of LANGUAGE_COMMANDS (toLowerCase ''cobol'') = None"
  by (simp add: toLowerCase_def toLowerCase_char_def LANGUAGE_COMMANDS_def)

lemma lower_Constructor: "toLowerCase ''Constructor'' = ''constructor''"
  by (simp add: toLowerCase_def toLowerCase_char_def)

lemma not_registered_constructor: "map_of LANGUAGE_COMMANDS (toLowerCase ''Constructor'') = None"
  by (simp add: lower_Constructor LANGUAGE_COMMANDS_def)

lemma lower_cobol: "toLowerCase ''cobol'' = ''cobol''"
  by (simp add: toLowerCase_def toLowerCase_char_def)

text \<open>
  Claim C5, amended. For every tag that is not a key of the registry, \<open>execute-code\<close>
  returns an error result at once, registers no child process and sends nothing to the
  window. On an existing session the error is \<open>Unsupported language: tag\<close>, or, for the
  two tags \<open>constructor\<close> and \<open>__proto__\<close> that the lookup finds on the prototype, the
  message of the \<open>TypeError\<close> raised while the arguments are built; the session keeps its
  buffer, active process and window, but its \<open>wasInterrupted\<close>, \<open>isExecutionComplete\<close>
  and \<open>lastExecutionResult\<close> are reset before the tag is looked up, which changes
  nothing on a session where they still have their initial values. With a missing or
  unknown session id the error is \<open>Session not found\<close> and nothing is changed.
\<close>

theorem unsupported_language_resets_only:
  "(terminals_get h sessionId = None \<longrightarrow>
      execute_code pf env code language sessionId h =
        (Resolved (Failure ''Session not found'' None None), h))
   \<and> (map_of LANGUAGE_COMMANDS (toLowerCase language) = None
        \<and> i \<in> terminals h \<and> objects h i = Some td \<longrightarrow>
      execute_code pf env code language (Some i) h =
        (Resolved (Failure
           (if toLowerCase language = ''constructor'' \<or> toLowerCase language = ''__proto__''
            then not_iterable_message else ''Unsupported language: '' @ language) None None),
         h\<lparr>objects := (objects h)(i := Some (td\<lparr>wasInterrupted := False,
              isExecutionComplete := False, lastExecutionResult := None\<rparr>))\<rparr>)
      \<and> procs (snd (execute_code pf env code language (Some i) h)) = procs h
      \<and> nextPid (snd (execute_code pf env code language (Some i) h)) = nextPid h
      \<and> sent (snd (execute_code pf env code language (Some i) h)) = sent h
      \<and> (\<not> wasInterrupted td \<and> \<not> isExecutionComplete td \<and> lastExecutionResult td = None
           \<longrightarrow> snd (execute_code pf env code language (Some i) h) = h))"
proof (intro conjI impI)
  assume "terminals_get h sessionId = None"
  then show "execute_code pf env code language sessionId h =
        (Resolved (Failure ''Session not found'' None None), h)"
    by (cases sessionId) (simp_all add: execute_code_def)
next
  assume a: "map_of LANGUAGE_COMMANDS (toLowerCase language) = None
        \<and> i \<in> terminals h \<and> objects h i = Some td"
  let ?m = "if toLowerCase language = ''constructor'' \<or> toLowerCase language = ''__proto__''
            then not_iterable_message else ''Unsupported language: '' @ language"
  let ?td' = "td\<lparr>wasInterrupted := False, isExecutionComplete := False, lastExecutionResult := None\<rparr>"
  let ?h' = "h\<lparr>objects := (objects h)(i := Some ?td')\<rparr>"
  have eq: "execute_code pf env code language (Some i) h = (Resolved (Failure ?m None None), ?h')"
    using a
    by (simp add: execute_code_def run_in_session_def terminals_get_def update_term_def
        reset_execution_def lookup_language_def Let_def)
  have same: "h\<lparr>objects := (objects h)(i := Some td)\<rparr> = h"
    using a by (simp add: fun_upd_idem)
  have fresh: "?h' = h"
    if "\<not> wasInterrupted td \<and> \<not> isExecutionComplete td \<and> lastExecutionResult td = None"
  proof -
    from that have e: "?td' = td" by simp
    show ?thesis by (subst e) (rule same)
  qed
  show "execute_code pf env code language (Some i) h = (Resolved (Failure ?m None None), ?h')"
    by (rule eq)
  show "procs (snd (execute_code pf env code language (Some i) h)) = procs h"
    unfolding eq by simp
  show "nextPid (snd (execute_code pf env code language (Some i) h)) = nextPid h"
    unfolding eq by simp
  show "sent (snd (execute_code pf env code language (Some i) h)) = sent h"
    unfolding eq by simp
  assume "\<not> wasInterrupted td \<and> \<not> isExecutionComplete td \<and> lastExecutionResult td = None"
  from fresh [OF this] show "snd (execute_code pf env code language (Some i) h) = h"
    unfolding eq by simp
qed

theorem unsupported_language_resets_only_witness:
  "terminals_get running_host (Some 7) = None
   \<and> execute_code Linux (SpawnReturns True) ''x'' ''cobol'' (Some 7) running_host =
       (Resolved (Failure ''Session not found'' None None), running_host)
   \<and> map_of LANGUAGE_COMMANDS (toLowerCase ''cobol'') = None
   \<and> map_of LANGUAGE_COMMANDS (toLowerCase ''Constructor'') = None
   \<and> 1 \<in> terminals running_host \<and> objects running_host 1 = Some running_session
   \<and> execute_code Linux (SpawnReturns True) ''x'' ''cobol'' (Some 1) running_host =
       (Resolved (Failure ''Unsupported language: cobol'' None None), running_host)
   \<and> execute_code Linux (SpawnReturns True) ''x'' ''Constructor'' (Some 1) running_host =
       (Resolved (Failure not_iterable_message None None), running_host)"
proof -
  have none: "terminals_get running_host (Some 7) = None"
    by (simp add: running_host_eq terminals_get_def)
  have fresh: "\<not> wasInterrupted running_session \<and> \<not> isExecutionComplete running_session
      \<and> lastExecutionResult running_session = None"
    by (simp add: running_session_def)
  have hyp: "1 \<in> terminals running_host \<and> objects running_host 1 = Some running_session"
    using running_host_fields by simp
  from unsupported_language_resets_only [where h = running_host and sessionId = "Some 7"
      and pf = Linux and env = "SpawnReturns True" and code = "''x''" and language = "''cobol''"] none
  have a: "execute_code Linux (SpawnReturns True) ''x'' ''cobol'' (Some 7) running_host =
       (Resolved (Failure ''Session not found'' None None), running_host)"
    by blast
  note t1 = unsupported_language_resets_only [where h = running_host and i = 1 and td = running_session
      and pf = Linux and env = "SpawnReturns True" and code = "''x''" and language = "''cobol''"]
  from t1 not_registered_cobol hyp
  have "execute_code Linux (SpawnReturns True) ''x'' ''cobol'' (Some 1) running_host =
        (Resolved (Failure
           (if toLowerCase ''cobol'' = ''constructor'' \<or> toLowerCase ''cobol'' = ''__proto__''
            then not_iterable_message else ''Unsupported language: '' @ ''cobol'') None None),
         running_host\<lparr>objects := (objects running_host)(1 := Some (running_session\<lparr>wasInterrupted := False,
              isExecutionComplete := False, lastExecutionResult := None\<rparr>))\<rparr>)"
    by blast
  then have b1: "fst (execute_code Linux (SpawnReturns True) ''x'' ''cobol'' (Some 1) running_host) =
          Resolved (Failure ''Unsupported language: cobol'' None None)"
    by (simp add: lower_cobol)
  from t1 not_registered_cobol hyp fresh
  have b2: "snd (execute_code Linux (SpawnReturns True) ''x'' ''cobol'' (Some 1) running_host) = running_host"
    by blast
  from b1 b2 have b: "execute_code Linux (SpawnReturns True) ''x'' ''cobol'' (Some 1) running_host =
       (Resolved (Failure ''Unsupported language: cobol'' None None), running_host)"
    by (metis prod.collapse)
  note t2 = unsupported_language_resets_only [where h = running_host and i = 1 and td = running_session
      and pf = Linux and env = "SpawnReturns True" and code = "''x''" and language = "''Constructor''"]
  from t2 not_registered_constructor hyp
  have "execute_code Linux (SpawnReturns True) ''x'' ''Constructor'' (Some 1) running_host =
        (Resolved (Failure
           (if toLowerCase ''Constructor'' = ''constructor'' \<or> toLowerCase ''Constructor'' = ''__proto__''
            then not_iterable_message else ''Unsupported language: '' @ ''Constructor'') None None),
         running_host\<lparr>objects := (objects running_host)(1 := Some (running_session\<lparr>wasInterrupted := False,
              isExecutionComplete := False, lastExecutionResult := None\<rparr>))\<rparr>)"
    by blast
  then have c1: "fst (execute_code Linux (SpawnReturns True) ''x'' ''Constructor'' (Some 1) running_host) =
          Resolved (Failure not_iterable_message None None)"
    by (simp add: lower_Constructor)
  from t2 not_registered_constructor hyp fresh
  have c2: "snd (execute_code Linux (SpawnReturns True) ''x'' ''Constructor'' (Some 1) running_host) = running_host"
    by blast
  from c1 c2 have c: "execute_code Linux (SpawnReturns True) ''x'' ''Constructor'' (Some 1) running_host =
       (Resolved (Failure not_iterable_message None None), running_host)"
    by (metis prod.collapse)
  from none a not_registered_cobol not_registered_constructor hyp b c show ?thesis
    by blast
qed

text \<open>
  On a session that had completed, the unsupported tag clears the completion flag and
  the stored result: the session is mutated.
\<close>

theorem unsupported_language_counterexample:
  "lookup_language (toLowerCase ''cobol'') = Undefined
   \<and> map_option isExecutionComplete (objects finished_host 1) = Some True
   \<and> map_option lastExecutionResult (objects finished_host 1) =
       Some (Some (Completion ''hi'' [] (Some 0) False))
   \<and> fst (execute_code Linux (SpawnReturns True) ''x'' ''cobol'' (Some 1) finished_host) =
       Resolved (Failure ''Unsupported language: cobol'' None None)
   \<and> map_option isExecutionComplete
       (objects (snd (execute_code Linux (SpawnReturns True) ''x'' ''cobol'' (Some 1) finished_host)) 1) =
       Some False
   \<and> map_option lastExecutionResult
       (objects (snd (execute_code Linux (SpawnReturns True) ''x'' ''cobol'' (Some 1) finished_host)) 1) =
       Some None"
  by (simp add: lookup_cobol finished_host_eq execute_code_def run_in_session_def terminals_get_def
      update_term_def reset_execution_def Let_def)

section \<open>Execution without a session\<close>

text \<open>
  Claim C7 (what the code does). \<open>execute-code\<close> called without a session id, as the
  preload's \<open>__executeCode(code, language)\<close> calls it, returns \<open>Session not found\<close>
  and leaves the state as it was: nothing is executed.
\<close>

theorem execute_without_session_not_found:
  "execute_code pf env code language None h = (Resolved (Failure ''Session not found'' None None), h)"
  by (simp add: execute_code_def)

section \<open>Spawn failures\<close>

text \<open>
  Claim C6, amended. A spawn failure reported by the child's \<open>error\<close> event resolves
  the pending call with the error message and the output accumulated so far; a
  \<open>spawn\<close> that throws resolves the call with the error message alone. Neither sends a
  message to the window, and neither marks the session complete: the \<open>error\<close> listener
  leaves every session as it is, and the throwing \<open>spawn\<close> leaves the session with the
  fields reset at the start of the call. When the failed child's \<open>close\<close> event
  follows, that event marks the session complete and stores the ordinary completion
  record, without the error message; the call keeps the error it was resolved with.
\<close>

theorem spawn_failure_resolves_without_completing:
  "(procs h p = Some c \<and> settled c = None \<longrightarrow>
      on_error p msg h =
        h\<lparr>procs := (procs h)(p := Some (c\<lparr>settled :=
             Some (Failure msg (Some (stdout_acc c)) (Some (stderr_acc c)))\<rparr>))\<rparr>)
   \<and> (i \<in> terminals h \<and> objects h i = Some td
        \<and> lookup_language (toLowerCase language) = Config c0 \<longrightarrow>
      execute_code pf (SpawnThrows msg) code language (Some i) h =
        (Resolved (Failure msg None None),
         h\<lparr>objects := (objects h)(i := Some (td\<lparr>wasInterrupted := False,
              isExecutionComplete := False, lastExecutionResult := None\<rparr>))\<rparr>))
   \<and> (procs h p = Some c \<and> settled c = None \<and> \<not> closed c \<and> objects h (owner c) = Some tc \<longrightarrow>
      objects (run pf [ChildError p msg, ChildClose p x] h) (owner c) =
        Some (tc\<lparr>activeProcess := None, isExecutionComplete := True,
                 lastExecutionResult :=
                   Some (Completion (stdout_acc c) (stderr_acc c) x (wasInterrupted tc))\<rparr>)
      \<and> map_option settled (procs (run pf [ChildError p msg, ChildClose p x] h) p) =
          Some (Some (Failure msg (Some (stdout_acc c)) (Some (stderr_acc c))))
      \<and> sent (run pf [ChildError p msg, ChildClose p x] h) = sent h)"
  by (auto simp: on_error_def resolve_def update_proc_def execute_code_def run_in_session_def
      terminals_get_def update_term_def reset_execution_def Let_def emitting_def on_close_def
      child_ends_def completion_of_def)

theorem spawn_failure_resolves_without_completing_witness:
  "procs running_host 0 = Some bash_child \<and> settled bash_child = None
   \<and> on_error 0 ''spawn script ENOENT'' running_host =
       running_host\<lparr>procs := (procs running_host)(0 := Some (bash_child\<lparr>settled :=
          Some (Failure ''spawn script ENOENT'' (Some []) (Some []))\<rparr>))\<rparr>
   \<and> 1 \<in> terminals running_host \<and> objects running_host 1 = Some running_session
   \<and> lookup_language (toLowerCase ''bash'') = Config \<lparr>cmd = ''bash'', args = [''-c'']\<rparr>
   \<and> execute_code Linux (SpawnThrows ''spawn script ENOENT'') ''ls'' ''bash'' (Some 1) running_host =
       (Resolved (Failure ''spawn script ENOENT'' None None), running_host)
   \<and> \<not> closed bash_child \<and> objects running_host (owner bash_child) = Some running_session
   \<and> map_option lastExecutionResult
        (objects (run Linux [ChildError 0 ''spawn script ENOENT'', ChildClose 0 (Some (- 2))]
           running_host) 1) = Some (Some (Completion [] [] (Some (- 2)) False))
   \<and> map_option settled
        (procs (run Linux [ChildError 0 ''spawn script ENOENT'', ChildClose 0 (Some (- 2))]
           running_host) 0) = Some (Some (Failure ''spawn script ENOENT'' (Some []) (Some [])))"
  using spawn_failure_resolves_without_completing
      [where h = running_host and p = 0 and c = bash_child and msg = "''spawn script ENOENT''"
         and i = 1 and td = running_session and language = "''bash''"
         and ?c0.0 = "\<lparr>cmd = ''bash'', args = [''-c'']\<rparr>" and pf = Linux and code = "''ls''"
         and tc = running_session and x = "Some (- 2)"]
    running_host_fields lookup_bash lower_bash
  by (simp add: bash_child_def new_child_def running_session_def running_host_eq)

text \<open>
  After the \<open>error\<close> event the call is resolved with the failure, but the session is
  not complete, holds no result and still names the failed handle as its active process.
\<close>

theorem spawn_failure_counterexample:
  "map_option settled (procs failed_host 0) =
     Some (Some (Failure ''spawn script ENOENT'' (Some []) (Some [])))
   \<and> map_option isExecutionComplete (objects failed_host 1) = Some False
   \<and> map_option lastExecutionResult (objects failed_host 1) = Some None
   \<and> map_option activeProcess (objects failed_host 1) = Some (Some 0)
   \<and> sent failed_host = []"
  by (simp add: failed_host_def running_host_eq emitting_def on_error_def resolve_def
      update_proc_def bash_child_def new_child_def running_session_def)

section \<open>Quoting the code for the Linux wrapper\<close>

lemma sh_split_quoted:
  "sh_split SingleQuoted (Some w) (escapedCode code @ SQ # rest) = sh_split Unquoted (Some (w @ code)) rest"
proof (induction code arbitrary: w)
  case Nil
  show ?case by (simp add: escapedCode_def)
next
  case (Cons c cs)
  have sq: "SQ \<noteq> SP" "SQ \<noteq> BSL" "BSL \<noteq> SP" "BSL \<noteq> SQ" "SQ \<noteq> LF"
    by (simp_all add: SQ_def SP_def BSL_def LF_def)
  show ?case
  proof (cases "c = SQ")
    case True
    then show ?thesis
      using Cons.IH [of "w @ [SQ]"] sq by (simp add: escapedCode_def word_so_far_def)
  next
    case False
    then show ?thesis
      using Cons.IH [of "w @ [c]"] by (simp add: escapedCode_def word_so_far_def)
  qed
qed

lemma sh_split_plain:
  "\<forall>c \<in> set t. c \<noteq> SP \<and> c \<noteq> SQ \<and> c \<noteq> BSL \<and> c \<notin> sh_meta \<Longrightarrow>
   sh_split Unquoted (Some w) (t @ rest) = sh_split Unquoted (Some (w @ t)) rest"
  by (induction t arbitrary: w) (simp_all add: word_so_far_def)

lemma sh_split_plain_word:
  assumes "plain_word t"
  shows "sh_split Unquoted None (t @ rest) = sh_split Unquoted (Some t) rest"
proof -
  from assms obtain c cs where t: "t = c # cs" by (cases t) (auto simp: plain_word_def)
  from assms t have c: "c \<noteq> SP" "c \<noteq> SQ" "c \<noteq> BSL" "c \<notin> sh_meta"
    and cs: "\<forall>c \<in> set cs. c \<noteq> SP \<and> c \<noteq> SQ \<and> c \<noteq> BSL \<and> c \<notin> sh_meta"
    by (auto simp: plain_word_def)
  show ?thesis using c sh_split_plain [OF cs, of "[c]" rest] by (simp add: t word_so_far_def)
qed

lemma sh_words_wrapper:
  assumes "plain_word a" "plain_word b"
  shows "sh_words (a @ [SP] @ b @ [SP] @ [SQ] @ escapedCode code @ [SQ]) = Some [a, b, code]"
proof -
  have sq: "SQ \<noteq> SP" by (simp add: SQ_def SP_def)
  have "sh_words (a @ [SP] @ b @ [SP] @ [SQ] @ escapedCode code @ [SQ])
        = sh_split Unquoted (Some a) ([SP] @ b @ [SP] @ [SQ] @ escapedCode code @ [SQ])"
    unfolding sh_words_def by (rule sh_split_plain_word [OF assms(1)])
  also have "\<dots> = map_option ((#) a) (sh_split Unquoted None (b @ [SP] @ [SQ] @ escapedCode code @ [SQ]))"
    by simp
  also have "sh_split Unquoted None (b @ [SP] @ [SQ] @ escapedCode code @ [SQ])
        = sh_split Unquoted (Some b) ([SP] @ [SQ] @ escapedCode code @ [SQ])"
    by (rule sh_split_plain_word [OF assms(2)])
  also have "\<dots> = map_option ((#) b) (sh_split SingleQuoted (Some []) (escapedCode code @ SQ # []))"
    using sq by (simp add: word_so_far_def)
  also have "sh_split SingleQuoted (Some []) (escapedCode code @ SQ # []) = Some [code]"
    by (simp add: sh_split_quoted)
  finally show ?thesis by simp
qed

lemma registry_plain:
  assumes "map_of LANGUAGE_COMMANDS lang = Some c0"
  shows "plain_word (cmd (platform_override Linux lang c0)) \<and>
         (\<exists>a. args (platform_override Linux lang c0) = [a] \<and> plain_word a)"
  using assms
  by (auto simp: LANGUAGE_COMMANDS_def platform_override_def plain_word_def sh_meta_def
        SP_def SQ_def BSL_def LF_def split: if_splits)

text \<open>
  Claim C9. On Linux, for every tag the registry resolves, the child is \<open>script\<close> with
  the command string \<open>cmd args 'escaped'\<close>, where \<open>escaped\<close> is the code with every
  single quote replaced by \<open>'\''\<close>; the shell splits that string into the interpreter,
  its argument and the original code as one word.
\<close>

theorem linux_wrapper_single_quotes_code:
  assumes "lookup_language (toLowerCase language) = Config c0"
      and "c = platform_override Linux (toLowerCase language) c0"
  shows "spawn_invocation Linux c code = (''script'', [''-qfec'', wrapper_command c code, ''/dev/null''])
         \<and> wrapper_command c code =
             cmd c @ [SP] @ join_space (args c) @ [SP] @ [SQ]
               @ replace_all SQ [SQ, BSL, SQ, SQ] code @ [SQ]
         \<and> sh_words (wrapper_command c code) = Some (cmd c # args c @ [code])"
proof -
  from assms(1) have m: "map_of LANGUAGE_COMMANDS (toLowerCase language) = Some c0"
    by (auto simp: lookup_language_def split: option.splits if_splits)
  from registry_plain [OF m] assms(2) obtain a where
    pc: "plain_word (cmd c)" and a: "args c = [a]" and pa: "plain_word a"
    by auto
  have "sh_words (wrapper_command c code) = Some [cmd c, a, code]"
    using sh_words_wrapper [OF pc pa, of code] by (simp add: wrapper_command_def a)
  then show ?thesis
    by (simp add: spawn_invocation_def wrapper_command_def escapedCode_def a)
qed

theorem linux_wrapper_single_quotes_code_witness:
  "lookup_language (toLowerCase ''Python'') = Config \<lparr>cmd = ''python3'', args = [''-c'']\<rparr>
   \<and> \<lparr>cmd = ''python3'', args = [''-c'']\<rparr>
       = platform_override Linux (toLowerCase ''Python'') \<lparr>cmd = ''python3'', args = [''-c'']\<rparr>
   \<and> sh_words (wrapper_command \<lparr>cmd = ''python3'', args = [''-c'']\<rparr> (''print('' @ [SQ] @ ''hi'' @ [SQ] @ '')''))
       = Some [''python3'', ''-c'', ''print('' @ [SQ] @ ''hi'' @ [SQ] @ '')'']"
proof -
  have low: "toLowerCase ''Python'' = ''python''"
    by (simp add: toLowerCase_def toLowerCase_char_def)
  have look: "lookup_language (toLowerCase ''Python'') = Config \<lparr>cmd = ''python3'', args = [''-c'']\<rparr>"
    by (simp add: low lookup_language_def LANGUAGE_COMMANDS_def)
  have ov: "\<lparr>cmd = ''python3'', args = [''-c'']\<rparr>
      = platform_override Linux (toLowerCase ''Python'') \<lparr>cmd = ''python3'', args = [''-c'']\<rparr>"
    by (simp add: low platform_override_def)
  have "sh_words (wrapper_command \<lparr>cmd = ''python3'', args = [''-c'']\<rparr> (''print('' @ [SQ] @ ''hi'' @ [SQ] @ '')''))
       = Some (cmd \<lparr>cmd = ''python3'', args = [''-c'']\<rparr> # args \<lparr>cmd = ''python3'', args = [''-c'']\<rparr>
            @ [''print('' @ [SQ] @ ''hi'' @ [SQ] @ '')''])"
    using linux_wrapper_single_quotes_code [OF look ov, of "''print('' @ [SQ] @ ''hi'' @ [SQ] @ '')''"]
    by blast
  then have "sh_words (wrapper_command \<lparr>cmd = ''python3'', args = [''-c'']\<rparr> (''print('' @ [SQ] @ ''hi'' @ [SQ] @ '')''))
       = Some [''python3'', ''-c'', ''print('' @ [SQ] @ ''hi'' @ [SQ] @ '')'']"
    by simp
  with look ov show ?thesis by blast
qed

section \<open>Interrupting a running child\<close>

lemma interrupted_host_eq:
  "interrupted_host = \<lparr>terminals = {1},
     objects = (\<lambda>_. None)(1 := Some (running_session\<lparr>wasInterrupted := True\<rparr>)),
     nextTerminalId = 2,
     procs = (\<lambda>_. None)(0 := Some (bash_child\<lparr>stdin_writes := [ [ETX] ]\<rparr>)),
     nextPid = 1, timers = [(0, 3000)], now = 3000, sent = []\<rparr>"
  by (simp add: interrupted_host_def running_host_eq kill_execution_def terminals_get_def
      update_term_def update_proc_def stdin_write_def grace_ms_def
      running_session_def bash_child_def new_child_def Let_def)

lemma stuck_host_eq:
  "stuck_host = \<lparr>terminals = {1},
     objects = (\<lambda>_. None)(1 := Some (running_session\<lparr>wasInterrupted := True\<rparr>)),
     nextTerminalId = 2,
     procs = (\<lambda>_. None)(0 := Some (bash_child\<lparr>stdin_writable := False, killed := True,
        signals := [SIGINT]\<rparr>)),
     nextPid = 1, timers = [], now = 3000, sent = []\<rparr>"
  by (simp add: stuck_host_def running_host_eq kill_execution_def terminals_get_def
      update_term_def update_proc_def stdin_write_def grace_ms_def kill_def fire_timer_def
      timer_callback_def running_session_def bash_child_def new_child_def Let_def)

text \<open>
  What \<open>kill-execution\<close> and its timer do in any state: the handler sets
  \<open>wasInterrupted\<close>, writes the byte 0x03 to the child's input stream if that stream
  exists and is writable and sends \<open>SIGINT\<close> otherwise, and arms a timer for 3000 ms
  that captures the handle. The timer does nothing before it is due; when it runs, it
  sends \<open>SIGKILL\<close> exactly when the handle's \<open>killed\<close> flag is unset and the process
  still exists.
\<close>

lemma interrupt_writes_etx_and_arms_guarded_kill:
  "(terminals_get h (Some i) = Some td \<and> activeProcess td = Some p \<and> procs h p = Some c \<longrightarrow>
      objects (kill_execution i h) = (objects h)(i := Some (td\<lparr>wasInterrupted := True\<rparr>))
      \<and> procs (kill_execution i h) =
          (procs h)(p := Some (if has_stdin c \<and> stdin_writable c
                               then c\<lparr>stdin_writes := stdin_writes c @ [ [ETX] ]\<rparr>
                               else kill SIGINT c))
      \<and> timers (kill_execution i h) = timers h @ [(p, now h + 3000)]
      \<and> terminals (kill_execution i h) = terminals h
      \<and> sent (kill_execution i h) = sent h)
   \<and> (k < length (timers g) \<and> timers g ! k = (p, due) \<and> procs g p = Some d \<longrightarrow>
      (now g < due \<longrightarrow> fire_timer k g = g)
      \<and> (due \<le> now g \<longrightarrow>
           procs (fire_timer k g) p =
             Some (if \<not> killed d \<and> running d
                   then d\<lparr>signals := signals d @ [SIGKILL], killed := True\<rparr> else d)))"
  by (auto simp: kill_execution_def fire_timer_def timer_callback_def kill_def stdin_write_def
      grace_ms_def terminals_get_def Let_def split: if_splits)

lemma interrupt_writes_etx_and_arms_guarded_kill_example:
  "terminals_get running_host (Some 1) = Some running_session
   \<and> activeProcess running_session = Some 0 \<and> procs running_host 0 = Some bash_child
   \<and> map_option wasInterrupted (objects (kill_execution 1 running_host) 1) = Some True
   \<and> map_option stdin_writes (procs (kill_execution 1 running_host) 0) = Some [ [ETX] ]
   \<and> timers (kill_execution 1 running_host) = [(0, 3000)]
   \<and> 0 < length (timers interrupted_host) \<and> timers interrupted_host ! 0 = (0, 3000)
   \<and> procs interrupted_host 0 = Some (bash_child\<lparr>stdin_writes := [ [ETX] ]\<rparr>)
   \<and> 3000 \<le> now interrupted_host
   \<and> map_option signals (procs (fire_timer 0 interrupted_host) 0) = Some [SIGKILL]"
proof -
  have hyp1: "terminals_get running_host (Some 1) = Some running_session
      \<and> activeProcess running_session = Some 0 \<and> procs running_host 0 = Some bash_child"
    using running_host_fields by (simp add: running_session_def)
  have hyp2: "0 < length (timers interrupted_host) \<and> timers interrupted_host ! 0 = (0, 3000)
      \<and> procs interrupted_host 0 = Some (bash_child\<lparr>stdin_writes := [ [ETX] ]\<rparr>)"
    by (simp add: interrupted_host_eq)
  have due: "3000 \<le> now interrupted_host"
    by (simp add: interrupted_host_eq)
  note t = interrupt_writes_etx_and_arms_guarded_kill
      [where h = running_host and i = 1 and td = running_session and p = 0 and c = bash_child
         and g = interrupted_host and k = 0 and due = 3000
         and d = "bash_child\<lparr>stdin_writes := [ [ETX] ]\<rparr>"]
  from t hyp1 have a: "map_option wasInterrupted (objects (kill_execution 1 running_host) 1) = Some True"
    by simp
  from t hyp1 have b: "map_option stdin_writes (procs (kill_execution 1 running_host) 0) = Some [ [ETX] ]"
    by (simp add: bash_child_def new_child_def)
  from t hyp1 have c: "timers (kill_execution 1 running_host) = [(0, 3000)]"
    by (simp add: running_host_eq)
  from t hyp2 due have d: "map_option signals (procs (fire_timer 0 interrupted_host) 0) = Some [SIGKILL]"
    by (simp add: bash_child_def new_child_def)
  from hyp1 hyp2 due a b c d show ?thesis by blast
qed

text \<open>
  Claim C3 (what the code does). When the interrupt wrote 0x03 to a writable input
  stream, the timer sends \<open>SIGKILL\<close> after the three seconds. When the input stream is
  not writable, the interrupt is a \<open>SIGINT\<close>, which sets \<open>killed\<close>; the timer's guard
  \<open>!p.killed\<close> is then false and the timer sends nothing: after the three seconds a
  child that survives \<open>SIGINT\<close> has received no \<open>SIGKILL\<close>, is still running and is
  still the session's active process.
\<close>

theorem interrupt_sigint_path_never_escalates:
  "map_option signals (procs (run Linux [KillExecution 1, Elapse 3000, TimerFires 0] running_host) 0)
     = Some [SIGKILL]
   \<and> stuck_host = run Linux [StdinUnwritable 0, KillExecution 1, Elapse 3000, TimerFires 0] running_host
   \<and> map_option wasInterrupted (objects stuck_host 1) = Some True
   \<and> map_option activeProcess (objects stuck_host 1) = Some (Some 0)
   \<and> map_option signals (procs stuck_host 0) = Some [SIGINT]
   \<and> map_option killed (procs stuck_host 0) = Some True
   \<and> map_option running (procs stuck_host 0) = Some True
   \<and> timers stuck_host = [] \<and> now stuck_host = 3000"
proof -
  have "run Linux [KillExecution 1, Elapse 3000, TimerFires 0] running_host
      = fire_timer 0 interrupted_host"
    by (simp add: interrupted_host_def)
  then have a: "map_option signals
      (procs (run Linux [KillExecution 1, Elapse 3000, TimerFires 0] running_host) 0) = Some [SIGKILL]"
    by (simp add: interrupted_host_eq fire_timer_def timer_callback_def kill_def
        bash_child_def new_child_def)
  have b: "map_option wasInterrupted (objects stuck_host 1) = Some True
   \<and> map_option activeProcess (objects stuck_host 1) = Some (Some 0)
   \<and> map_option signals (procs stuck_host 0) = Some [SIGINT]
   \<and> map_option killed (procs stuck_host 0) = Some True
   \<and> map_option running (procs stuck_host 0) = Some True
   \<and> timers stuck_host = [] \<and> now stuck_host = 3000"
    by (simp add: stuck_host_eq running_session_def bash_child_def new_child_def)
  from a b show ?thesis by (simp add: stuck_host_def)
qed

section \<open>Completion state of a session\<close>

lemma run_append: "run pf (es @ fs) h = run pf fs (run pf es h)"
  by (induction es arbitrary: h) simp_all

lemma sessions_ok_step: "sessions_ok h \<Longrightarrow> sessions_ok (step pf e h)"
  unfolding sessions_ok_def
  by (cases e)
     (auto simp: handler_defs session_ok_def reset_execution_def Let_def
           split: option.splits if_splits js_lookup.splits spawn_outcome.splits prod.splits)

lemma sessions_ok_run: "sessions_ok h \<Longrightarrow> sessions_ok (run pf es h)"
  by (induction es arbitrary: h) (simp_all add: sessions_ok_step)

lemma sessions_ok_initial: "sessions_ok initial_host"
  by (simp add: sessions_ok_def initial_host_def)

lemma ids_fresh_step: "ids_fresh h \<Longrightarrow> ids_fresh (step pf e h)"
  unfolding ids_fresh_def
  by (cases e)
     (auto simp: handler_defs Let_def less_Suc_eq
           split: option.splits if_splits js_lookup.splits spawn_outcome.splits prod.splits)

lemma ids_fresh_run: "ids_fresh h \<Longrightarrow> ids_fresh (run pf es h)"
  by (induction es arbitrary: h) (simp_all add: ids_fresh_step)

lemma ids_fresh_initial: "ids_fresh initial_host"
  by (simp add: ids_fresh_def initial_host_def)

lemma completes_only_on_close:
  assumes "objects h i = Some td" "objects (step pf e h) i = Some td'"
      and "\<not> isExecutionComplete td" "isExecutionComplete td'"
  shows "\<exists>p x c. e = ChildClose p x \<and> procs h p = Some c \<and> owner c = i \<and> \<not> closed c"
  using assms
  by (cases e)
     (auto simp: handler_defs emitting_def reset_execution_def Let_def
           split: option.splits if_splits js_lookup.splits spawn_outcome.splits prod.splits)

lemma uncompletes_only_on_execute:
  assumes "objects h i = Some td" "objects (step pf e h) i = Some td'"
      and "isExecutionComplete td" "\<not> isExecutionComplete td'" and "ids_fresh h"
  shows "\<exists>env code language. e = ExecuteCode env code language (Some i) \<and> i \<in> terminals h"
  using assms
  by (cases e)
     (auto simp: handler_defs emitting_def reset_execution_def Let_def ids_fresh_def
           split: option.splits if_splits js_lookup.splits spawn_outcome.splits prod.splits)

text \<open>
  Claim C1, amended. In every reachable state and for every session object,
  \<open>lastExecutionResult\<close> is set exactly when \<open>isExecutionComplete\<close> is true, and a
  complete session has no active process. The flag goes from false to true only through
  the \<open>close\<close> event of a child of that session that had not closed before, and it goes
  back from true to false, with the result cleared, only through an \<open>execute-code\<close>
  call on that session.
\<close>

theorem completion_state_invariant:
  assumes "h = run pf evs initial_host" and "objects h i = Some td"
  shows "(isExecutionComplete td \<longleftrightarrow> lastExecutionResult td \<noteq> None)
       \<and> (isExecutionComplete td \<longrightarrow> activeProcess td = None)
       \<and> (objects (step pf e h) i = Some td' \<and> \<not> isExecutionComplete td \<and> isExecutionComplete td'
            \<longrightarrow> (\<exists>p x c. e = ChildClose p x \<and> procs h p = Some c \<and> owner c = i \<and> \<not> closed c))
       \<and> (objects (step pf e h) i = Some td' \<and> isExecutionComplete td \<and> \<not> isExecutionComplete td'
            \<longrightarrow> (\<exists>env code language. e = ExecuteCode env code language (Some i) \<and> i \<in> terminals h)
                \<and> lastExecutionResult td' = None)"
proof -
  have fresh: "ids_fresh h"
    unfolding assms(1) by (rule ids_fresh_run [OF ids_fresh_initial])
  have "sessions_ok h"
    unfolding assms(1) by (rule sessions_ok_run [OF sessions_ok_initial])
  then have ok: "session_ok td" and ok': "objects (step pf e h) i = Some td' \<Longrightarrow> session_ok td'"
    using assms(2) sessions_ok_step [of h pf e] by (auto simp: sessions_ok_def)
  show ?thesis
    using ok ok' completes_only_on_close [OF assms(2), of pf e td']
      uncompletes_only_on_execute [OF assms(2) _ _ _ fresh, of pf e td']
    by (auto simp: session_ok_def)
qed

lemma finished_host_run:
  "finished_host = run Linux [ShowExecutionModal ''bash'' ''read x'',
      ExecuteCode (SpawnReturns True) ''read x'' ''bash'' (Some 1),
      ChildData Stdout 0 ''hi'', ChildClose 0 (Some 0)] initial_host"
  by (simp add: finished_host_def running_host_def)

lemma rerun_host_eq:
  "rerun_host = \<lparr>terminals = {1},
     objects = (\<lambda>_. None)(1 := Some (running_session\<lparr>activeProcess := Some 1,
        buffer := command_echo ''read x'' @ ''hi''\<rparr>)),
     nextTerminalId = 2,
     procs = ((\<lambda>_. None)(0 := Some (bash_child\<lparr>stdout_acc := ''hi'', running := False,
        closed := True, settled := Some (Completion ''hi'' [] (Some 0) False)\<rparr>)))
        (1 := Some bash_child),
     nextPid = 2, timers = [], now = 0, sent = [(1, TerminalOutput Stdout ''hi'')]\<rparr>"
  by (simp add: rerun_host_def finished_host_eq handler_defs Let_def reset_execution_def
      lower_bash lookup_bash platform_override_def spawn_invocation_def running_session_def
      bash_child_def update_term_def)

lemma reclosed_host_complete:
  "map_option isExecutionComplete (objects reclosed_host 1) = Some True"
  by (simp add: reclosed_host_def rerun_host_eq emitting_def on_close_def child_ends_def
      resolve_def completion_of_def update_term_def update_proc_def
      running_session_def bash_child_def new_child_def Let_def)

theorem completion_state_invariant_witness:
  "finished_host = run Linux [ShowExecutionModal ''bash'' ''read x'',
      ExecuteCode (SpawnReturns True) ''read x'' ''bash'' (Some 1),
      ChildData Stdout 0 ''hi'', ChildClose 0 (Some 0)] initial_host
   \<and> objects finished_host 1 = Some (running_session\<lparr>activeProcess := None,
        buffer := command_echo ''read x'' @ ''hi'', isExecutionComplete := True,
        lastExecutionResult := Some (Completion ''hi'' [] (Some 0) False)\<rparr>)
   \<and> objects (step Linux (ExecuteCode (SpawnReturns True) ''read x'' ''bash'' (Some 1)) finished_host) 1
       = Some (running_session\<lparr>activeProcess := Some 1, buffer := command_echo ''read x'' @ ''hi''\<rparr>)
   \<and> (\<exists>env code language.
         ExecuteCode (SpawnReturns True) ''read x'' ''bash'' (Some 1) = ExecuteCode env code language (Some 1)
         \<and> 1 \<in> terminals finished_host)"
proof -
  let ?td = "running_session\<lparr>activeProcess := None,
        buffer := command_echo ''read x'' @ ''hi'', isExecutionComplete := True,
        lastExecutionResult := Some (Completion ''hi'' [] (Some 0) False)\<rparr>"
  let ?td' = "running_session\<lparr>activeProcess := Some 1, buffer := command_echo ''read x'' @ ''hi''\<rparr>"
  have o: "objects finished_host 1 = Some ?td"
    by (simp add: finished_host_eq)
  have o': "objects (step Linux (ExecuteCode (SpawnReturns True) ''read x'' ''bash'' (Some 1)) finished_host) 1
       = Some ?td'"
    using rerun_host_eq by (simp add: rerun_host_def)
  have flags: "isExecutionComplete ?td" "\<not> isExecutionComplete ?td'"
    by (simp_all add: running_session_def)
  from completion_state_invariant [OF finished_host_run o,
      of "ExecuteCode (SpawnReturns True) ''read x'' ''bash'' (Some 1)" ?td'] o' flags
  have "\<exists>env code language.
         ExecuteCode (SpawnReturns True) ''read x'' ''bash'' (Some 1) = ExecuteCode env code language (Some 1)
         \<and> 1 \<in> terminals finished_host"
    by blast
  with finished_host_run o o' show ?thesis by blast
qed

text \<open>
  Executing again on a finished session makes it incomplete again, and the close of the
  second child completes it a second time.
\<close>

theorem completion_counterexample:
  "map_option isExecutionComplete (objects finished_host 1) = Some True
   \<and> map_option isExecutionComplete (objects rerun_host 1) = Some False
   \<and> map_option lastExecutionResult (objects rerun_host 1) = Some None
   \<and> map_option isExecutionComplete (objects reclosed_host 1) = Some True"
  using reclosed_host_complete
  by (simp add: finished_host_eq rerun_host_eq running_session_def)

section \<open>Growth of the buffer\<close>

lemma buffer_step:
  assumes "ids_fresh h" and "objects h i = Some td"
  shows "\<exists>td'. objects (step pf e h) i = Some td' \<and> prefix (buffer td) (buffer td')
           \<and> (buffer td' \<noteq> buffer td \<longrightarrow>
                (\<exists>st p text c. e = ChildData st p text \<and> procs h p = Some c \<and> owner c = i
                    \<and> \<not> closed c \<and> buffer td' = buffer td @ text))"
  using assms
  by (cases e)
     (auto simp: handler_defs emitting_def reset_execution_def Let_def ids_fresh_def
           split: option.splits if_splits js_lookup.splits spawn_outcome.splits prod.splits)

lemma buffer_run:
  assumes "ids_fresh h" and "objects h i = Some td"
  shows "\<exists>td'. objects (run pf es h) i = Some td' \<and> prefix (buffer td) (buffer td')"
  using assms
proof (induction es arbitrary: h td)
  case Nil
  then show ?case by simp
next
  case (Cons e es)
  from buffer_step [OF Cons.prems, of pf e] obtain t1 where
    t1: "objects (step pf e h) i = Some t1" and p1: "prefix (buffer td) (buffer t1)"
    by blast
  from Cons.IH [OF ids_fresh_step [OF Cons.prems(1)] t1] obtain t2 where
    "objects (run pf es (step pf e h)) i = Some t2" and "prefix (buffer t1) (buffer t2)"
    by blast
  with p1 show ?case by (auto intro: prefix_order.trans)
qed

text \<open>
  Claim C2, amended. In every reachable state, each event leaves the buffer of every
  session object a prefix of its new buffer, and so does every run of events: the
  length never decreases and nothing is removed or reordered. The only events that
  change the buffer are the stdout and stderr chunks of a child of that session that
  has not closed yet, and they append the chunk; the completion flag plays no part.
\<close>

theorem buffer_only_grows:
  assumes "h = run pf evs0 initial_host" and "objects h i = Some td"
  shows "(\<exists>td'. objects (step pf e h) i = Some td' \<and> prefix (buffer td) (buffer td')
           \<and> (buffer td' \<noteq> buffer td \<longrightarrow>
                (\<exists>st p text c. e = ChildData st p text \<and> procs h p = Some c \<and> owner c = i
                    \<and> \<not> closed c \<and> buffer td' = buffer td @ text)))
       \<and> (\<exists>td''. objects (run pf evs h) i = Some td'' \<and> prefix (buffer td) (buffer td'')
             \<and> length (buffer td) \<le> length (buffer td''))"
proof -
  have fresh: "ids_fresh h"
    unfolding assms(1) by (rule ids_fresh_run [OF ids_fresh_initial])
  from buffer_run [OF fresh assms(2), of pf evs] obtain t2 where
    "objects (run pf evs h) i = Some t2" and "prefix (buffer td) (buffer t2)"
    by blast
  then have "\<exists>td''. objects (run pf evs h) i = Some td'' \<and> prefix (buffer td) (buffer td'')
             \<and> length (buffer td) \<le> length (buffer td'')"
    by (auto dest: prefix_length_le)
  with buffer_step [OF fresh assms(2), of pf e] show ?thesis by blast
qed

lemma running_host_run:
  "running_host = run Linux [ShowExecutionModal ''bash'' ''read x'',
      ExecuteCode (SpawnReturns True) ''read x'' ''bash'' (Some 1)] initial_host"
  by (simp add: running_host_def)

lemma overlap_host_eq:
  "overlap_host = \<lparr>terminals = {1},
     objects = (\<lambda>_. None)(1 := Some (running_session\<lparr>activeProcess := None,
        isExecutionComplete := True,
        lastExecutionResult := Some (Completion [] [] (Some 0) False)\<rparr>)),
     nextTerminalId = 2,
     procs = ((\<lambda>_. None)(0 := Some (bash_child\<lparr>running := False,
        closed := True, settled := Some (Completion [] [] (Some 0) False)\<rparr>)))
        (1 := Some bash_child),
     nextPid = 2, timers = [], now = 0, sent = []\<rparr>"
  by (simp add: overlap_host_def running_host_eq handler_defs emitting_def Let_def reset_execution_def
      lower_bash lookup_bash platform_override_def spawn_invocation_def running_session_def
      resolve_def completion_of_def bash_child_def new_child_def update_term_def update_proc_def
      fun_upd_twist)

theorem buffer_only_grows_witness:
  "running_host = run Linux [ShowExecutionModal ''bash'' ''read x'',
      ExecuteCode (SpawnReturns True) ''read x'' ''bash'' (Some 1)] initial_host
   \<and> objects running_host 1 = Some running_session
   \<and> (\<exists>td'. objects (step Linux (ChildData Stdout 0 ''hi'') running_host) 1 = Some td'
         \<and> prefix (command_echo ''read x'') (buffer td'))
   \<and> (\<exists>td''. objects finished_host 1 = Some td''
         \<and> prefix (command_echo ''read x'') (buffer td'')
         \<and> length (command_echo ''read x'') \<le> length (buffer td''))"
proof -
  have b: "buffer running_session = command_echo ''read x''"
    by (simp add: running_session_def)
  have f: "run Linux [ChildData Stdout 0 ''hi'', ChildClose 0 (Some 0)] running_host = finished_host"
    by (simp add: finished_host_def)
  from buffer_only_grows [OF running_host_run running_host_fields(2),
      where e = "ChildData Stdout 0 ''hi''"
        and evs = "[ChildData Stdout 0 ''hi'', ChildClose 0 (Some 0)]"]
  have "(\<exists>td'. objects (step Linux (ChildData Stdout 0 ''hi'') running_host) 1 = Some td'
         \<and> prefix (command_echo ''read x'') (buffer td'))
   \<and> (\<exists>td''. objects finished_host 1 = Some td''
         \<and> prefix (command_echo ''read x'') (buffer td'')
         \<and> length (command_echo ''read x'') \<le> length (buffer td''))"
    unfolding b f by blast
  with running_host_run running_host_fields(2) show ?thesis by blast
qed

text \<open>
  With two executions overlapping on one session, the first child's close marks the
  session complete while the second child is still writing: the buffer changes although
  the session is complete before and after the chunk.
\<close>

theorem buffer_frozen_counterexample:
  "map_option isExecutionComplete (objects overlap_host 1) = Some True
   \<and> map_option buffer (objects overlap_host 1) = Some (command_echo ''read x'')
   \<and> map_option isExecutionComplete (objects (step Linux (ChildData Stdout 1 ''b'') overlap_host) 1)
       = Some True
   \<and> map_option buffer (objects (step Linux (ChildData Stdout 1 ''b'') overlap_host) 1)
       = Some (command_echo ''read x'' @ ''b'')"
  by (simp add: overlap_host_eq emitting_def on_data_def send_to_window_def update_term_def
      update_proc_def running_session_def bash_child_def new_child_def Let_def)

section \<open>The handle captured by the kill timer\<close>

lemma handles_ok_step: "handles_ok h \<Longrightarrow> handles_ok (step pf e h)"
  unfolding handles_ok_def
  apply (cases e)
  apply (auto simp: handler_defs emitting_def reset_execution_def resolve_def Let_def less_Suc_eq
           split: option.splits if_splits js_lookup.splits spawn_outcome.splits prod.splits
           dest: in_set_takeD in_set_dropD)
     apply (meson in_set_takeD in_set_dropD)+
  done


lemma handles_ok_initial: "handles_ok initial_host"
  by (simp add: handles_ok_def initial_host_def)








section \<open>Catching up after completion\<close>

lemma streamed_append:
  "streamed i (ms @ [(j, m)]) =
     streamed i ms @ (case m of TerminalOutput st t \<Rightarrow> if j = i then t else []
                      | TerminalCompleteMsg r \<Rightarrow> [])"
  by (induction i ms rule: streamed.induct) (simp_all split: window_message.splits)

lemma stream_ok_step: "ids_fresh h \<Longrightarrow> stream_ok h \<Longrightarrow> stream_ok (step pf e h)"
  unfolding stream_ok_def ids_fresh_def
  by (cases e)
     (auto simp: handler_defs emitting_def send_to_window_def streamed_append Let_def
           reset_execution_def
           split: option.splits if_splits js_lookup.splits spawn_outcome.splits prod.splits)

lemma stream_ok_run: "ids_fresh h \<Longrightarrow> stream_ok h \<Longrightarrow> stream_ok (run pf es h)"
  by (induction es arbitrary: h) (simp_all add: stream_ok_step ids_fresh_step)

lemma stream_ok_initial: "stream_ok initial_host"
  by (simp add: stream_ok_def initial_host_def)

lemma echo_step:
  assumes "ids_fresh h" and "objects h i = Some td"
      and "window_usable td \<longrightarrow> buffer td = X @ streamed i (sent h)"
  shows "\<exists>td'. objects (step pf e h) i = Some td'
           \<and> (window_usable td' \<longrightarrow> buffer td' = X @ streamed i (sent (step pf e h)))"
  using assms unfolding ids_fresh_def
  by (cases e)
     (auto simp: handler_defs emitting_def send_to_window_def streamed_append Let_def
           reset_execution_def
           split: option.splits if_splits js_lookup.splits spawn_outcome.splits prod.splits)

lemma echo_run:
  assumes "ids_fresh h" and "objects h i = Some td"
      and "window_usable td \<longrightarrow> buffer td = X @ streamed i (sent h)"
  shows "\<exists>td'. objects (run pf es h) i = Some td'
           \<and> (window_usable td' \<longrightarrow> buffer td' = X @ streamed i (sent (run pf es h)))"
  using assms
proof (induction es arbitrary: h td)
  case Nil
  then show ?case by simp
next
  case (Cons e es)
  from echo_step [OF Cons.prems, of pf e] obtain t1 where
    t1: "objects (step pf e h) i = Some t1"
    and b1: "window_usable t1 \<longrightarrow> buffer t1 = X @ streamed i (sent (step pf e h))"
    by blast
  from Cons.IH [OF ids_fresh_step [OF Cons.prems(1)] t1 b1] show ?case
    by simp
qed

lemma verdict_simps [simp]:
  "verdict (kill sg c) = verdict c"
  "verdict (stdin_write t c) = verdict c"
  "verdict (c\<lparr>running := b\<rparr>) = verdict c"
  "verdict (c\<lparr>stdin_writable := b\<rparr>) = verdict c"
  by (simp_all add: verdict_def kill_def stdin_write_def)

lemma verdict_update_proc:
  assumes "\<And>c. verdict (f c) = verdict c"
  shows "map_option verdict (procs (update_proc q f h) p) = map_option verdict (procs h p)"
  using assms by (cases "p = q"; cases "procs h q") (simp_all add: update_proc_def)

lemma verdict_kill_execution:
  "map_option verdict (procs (kill_execution i h) p) = map_option verdict (procs h p)"
proof -
  have "\<And>c. verdict (if has_stdin c \<and> stdin_writable c then stdin_write [ETX] c else kill SIGINT c)
          = verdict c"
    by simp
  from verdict_update_proc [of "\<lambda>c. if has_stdin c \<and> stdin_writable c then stdin_write [ETX] c
        else kill SIGINT c", OF this]
  show ?thesis
    by (simp add: kill_execution_def Let_def update_proc_def update_term_def split: option.splits)
qed

lemma verdict_fire_timer:
  "map_option verdict (procs (fire_timer k h) p) = map_option verdict (procs h p)"
proof -
  have "\<And>c. verdict (if \<not> killed c then kill SIGKILL c else c) = verdict c"
    by simp
  from verdict_update_proc [of "\<lambda>c. if \<not> killed c then kill SIGKILL c else c", OF this]
  show ?thesis
    by (simp add: fire_timer_def timer_callback_def update_proc_def)
qed

lemma verdict_terminal_input:
  "map_option verdict (procs (terminal_input i t h) p) = map_option verdict (procs h p)"
proof -
  have "\<And>c. verdict (if has_stdin c then stdin_write (normalizedText t) c else c) = verdict c"
    by simp
  from verdict_update_proc [of "\<lambda>c. if has_stdin c then stdin_write (normalizedText t) c else c", OF this]
  show ?thesis
    by (simp add: terminal_input_def update_proc_def split: option.splits)
qed

lemma verdict_window_closes:
  "map_option verdict (procs (window_closes i h) p) = map_option verdict (procs h p)"
  using verdict_update_proc [of "kill SIGTERM"]
  by (simp add: window_closes_def on_window_closed_def update_proc_def update_term_def
      terminals_get_def Let_def split: option.splits)

lemma verdict_execute:
  assumes "procs h p \<noteq> None" and "\<forall>q. procs h q \<noteq> None \<longrightarrow> q < nextPid h"
  shows "procs (snd (execute_code pf env code language sessionId h)) p = procs h p"
proof -
  from assms have "p \<noteq> nextPid h" by auto
  then show ?thesis
    by (simp add: execute_code_def run_in_session_def register_child_def Let_def
        split: option.splits js_lookup.splits spawn_outcome.splits)
qed

lemma closed_child_frozen:
  assumes "handles_ok h" and "procs h p = Some c" and "closed c"
  shows "map_option verdict (procs (step pf e h) p) = Some (verdict c)"
proof (cases e)
  case (ShowExecutionModal l cd)
  with assms show ?thesis by (simp add: show_execution_modal_def Let_def)
next
  case (ExecuteCode env code language sessionId)
  from assms(1,2) have "procs h p \<noteq> None" "\<forall>q. procs h q \<noteq> None \<longrightarrow> q < nextPid h"
    by (simp_all add: handles_ok_def)
  from verdict_execute [OF this] ExecuteCode assms(2) show ?thesis by simp
next
  case (ChildData st q t)
  with assms(2,3) show ?thesis
    by (cases "q = p") (simp_all add: emitting_def on_data_def Let_def split: option.splits)
next
  case (ChildError q m)
  with assms(2,3) show ?thesis
    by (cases "q = p") (simp_all add: emitting_def on_error_def resolve_def split: option.splits)
next
  case (ChildExit q)
  with assms(2) show ?thesis by (cases "q = p") simp_all
next
  case (ChildClose q x)
  with assms(2,3) show ?thesis
    by (cases "q = p")
       (simp_all add: emitting_def on_close_def child_ends_def resolve_def Let_def
          split: option.splits)
next
  case (StdinUnwritable q)
  with assms(2) show ?thesis by (cases "q = p") simp_all
next
  case (KillExecution i)
  with assms(2) show ?thesis by (simp add: verdict_kill_execution)
next
  case (TimerFires k)
  with assms(2) show ?thesis by (simp add: verdict_fire_timer)
next
  case (Elapse d)
  with assms(2) show ?thesis by simp
next
  case (TerminalInput i t)
  with assms(2) show ?thesis by (simp add: verdict_terminal_input)
next
  case (TerminalComplete i r)
  with assms(2) show ?thesis by (simp add: terminal_complete_def split: option.splits)
next
  case (CloseTerminal i)
  have "close_terminal i h = h \<or> close_terminal i h = window_closes i h"
    by (simp add: close_terminal_def split: option.splits)
  then have "map_option verdict (procs (close_terminal i h) p) = map_option verdict (procs h p)"
    by (auto simp only: verdict_window_closes)
  with CloseTerminal assms(2) show ?thesis by simp
next
  case (WindowClosed i)
  have "step pf (WindowClosed i) h = h \<or> step pf (WindowClosed i) h = window_closes i h"
    by (simp split: option.splits)
  then have "map_option verdict (procs (step pf (WindowClosed i) h) p) = map_option verdict (procs h p)"
    by (auto simp only: verdict_window_closes)
  with WindowClosed assms(2) show ?thesis by simp
qed

lemma result_origin:
  assumes "objects (step pf e h) i = Some td'" and "lastExecutionResult td' = Some r"
  shows "(\<exists>td. objects h i = Some td \<and> lastExecutionResult td = Some r)
       \<or> (\<exists>p x c td. e = ChildClose p x \<and> procs h p = Some c \<and> \<not> closed c \<and> owner c = i
             \<and> objects h i = Some td \<and> r = completion_of c x td)"
  using assms
  by (cases e)
     (auto simp: handler_defs emitting_def reset_execution_def Let_def
           split: option.splits if_splits js_lookup.splits spawn_outcome.splits prod.splits)

lemma close_settles:
  assumes "procs h p = Some c" and "\<not> closed c" and "objects h (owner c) = Some td"
  shows "procs (step pf (ChildClose p x) h) p =
           Some (c\<lparr>settled := (case settled c of None \<Rightarrow> Some (completion_of c x td)
                                | Some v \<Rightarrow> Some v),
                   running := False, closed := True\<rparr>)"
  using assms
  by (auto simp: emitting_def on_close_def child_ends_def resolve_def Let_def
           split: option.splits)

lemma settle_ok_simps [simp]:
  "settle_ok (kill sg c) = settle_ok c"
  "settle_ok (stdin_write t c) = settle_ok c"
  "settle_ok (c\<lparr>running := b\<rparr>) = settle_ok c"
  "settle_ok (c\<lparr>stdin_writable := b\<rparr>) = settle_ok c"
  "settle_ok (c\<lparr>stdout_acc := t\<rparr>) = settle_ok c"
  "settle_ok (c\<lparr>stderr_acc := t\<rparr>) = settle_ok c"
  "settle_ok (new_child i invocation b)"
  by (simp_all add: settle_ok_def kill_def stdin_write_def new_child_def)

lemma unsettled_ok_cong: "procs h' = procs h \<Longrightarrow> unsettled_ok h' = unsettled_ok h"
  by (simp add: unsettled_ok_def)

lemma unsettled_ok_update:
  assumes "\<And>c. settle_ok c \<Longrightarrow> settle_ok (f c)" and "unsettled_ok h"
  shows "unsettled_ok (update_proc q f h)"
  using assms by (auto simp: unsettled_ok_def update_proc_def)

lemma unsettled_ok_resolve:
  assumes "unsettled_ok h"
  shows "unsettled_ok (resolve q (Failure m a b) h)"
  unfolding resolve_def
  by (rule unsettled_ok_update [OF _ assms])
     (auto simp: settle_ok_def is_failure_def split: option.splits)

lemma unsettled_ok_close:
  assumes "unsettled_ok h"
  shows "unsettled_ok (child_ends q (on_close q x h))"
  using assms
  by (auto simp: unsettled_ok_def settle_ok_def child_ends_def on_close_def resolve_def
        update_proc_def Let_def split: option.splits if_splits)

lemma unsettled_ok_execute:
  assumes "unsettled_ok h"
  shows "unsettled_ok (snd (execute_code pf env code language sessionId h))"
  using assms
  by (auto simp: unsettled_ok_def execute_code_def run_in_session_def register_child_def Let_def
        split: option.splits js_lookup.splits spawn_outcome.splits if_splits)

lemma unsettled_ok_window_closes:
  assumes "unsettled_ok h"
  shows "unsettled_ok (window_closes i h)"
proof -
  have a: "unsettled_ok (update_term i (\<lambda>td. td\<lparr>window_usable := False\<rparr>) h)"
    using assms by (simp add: unsettled_ok_def)
  have "unsettled_ok (update_proc p (kill SIGTERM) g)" if "unsettled_ok g" for p g
    by (rule unsettled_ok_update [OF _ that]) simp
  with a show ?thesis
    by (simp add: window_closes_def on_window_closed_def unsettled_ok_def Let_def
        split: option.splits)
qed

lemma unsettled_ok_step: "unsettled_ok h \<Longrightarrow> unsettled_ok (step pf e h)"
proof (cases e)
  case (ShowExecutionModal l cd)
  assume "unsettled_ok h"
  with ShowExecutionModal show ?thesis
    by (simp add: show_execution_modal_def unsettled_ok_def Let_def)
next
  case (ExecuteCode env code language sessionId)
  assume "unsettled_ok h"
  with ExecuteCode show ?thesis by (simp add: unsettled_ok_execute)
next
  case (ChildData st q t)
  assume u: "unsettled_ok h"
  let ?f = "\<lambda>c. case st of Stdout \<Rightarrow> c\<lparr>stdout_acc := stdout_acc c @ t\<rparr>
                          | Stderr \<Rightarrow> c\<lparr>stderr_acc := stderr_acc c @ t\<rparr>"
  have upd: "unsettled_ok (update_proc q ?f h)"
    by (rule unsettled_ok_update [OF _ u]) (simp split: stream.splits)
  have eq: "procs (on_data st q t h) = procs (update_proc q ?f h)"
  proof (cases "procs h q")
    case None
    then have "(procs h)(q := None) = procs h" by (rule fun_upd_idem)
    with None show ?thesis by (simp add: on_data_def)
  next
    case (Some c)
    then show ?thesis by (simp add: on_data_def Let_def)
  qed
  from unsettled_ok_cong [OF eq] upd have "unsettled_ok (on_data st q t h)"
    by simp
  with u ChildData show ?thesis by simp
next
  case (ChildError q m)
  assume u: "unsettled_ok h"
  with ChildError show ?thesis
    by (simp add: on_error_def unsettled_ok_resolve split: option.splits)
next
  case (ChildExit q)
  assume u: "unsettled_ok h"
  have "unsettled_ok (update_proc q (\<lambda>c. c\<lparr>running := False\<rparr>) h)"
    by (rule unsettled_ok_update [OF _ u]) simp
  with ChildExit show ?thesis by simp
next
  case (ChildClose q x)
  assume u: "unsettled_ok h"
  with ChildClose show ?thesis by (simp add: unsettled_ok_close)
next
  case (StdinUnwritable q)
  assume u: "unsettled_ok h"
  have "unsettled_ok (update_proc q (\<lambda>c. c\<lparr>stdin_writable := False\<rparr>) h)"
    by (rule unsettled_ok_update [OF _ u]) simp
  with StdinUnwritable show ?thesis by simp
next
  case (KillExecution i)
  assume u: "unsettled_ok h"
  have "unsettled_ok (update_proc q (\<lambda>c. if has_stdin c \<and> stdin_writable c
      then stdin_write [ETX] c else kill SIGINT c) g)" if "unsettled_ok g" for q g
    by (rule unsettled_ok_update [OF _ that]) simp
  from this [of h] u KillExecution show ?thesis
    by (simp add: kill_execution_def unsettled_ok_def update_term_def Let_def split: option.splits)
next
  case (TimerFires k)
  assume u: "unsettled_ok h"
  have "unsettled_ok (update_proc q (\<lambda>c. if \<not> killed c then kill SIGKILL c else c) g)"
    if "unsettled_ok g" for q g
    by (rule unsettled_ok_update [OF _ that]) simp
  from this [of h] u TimerFires show ?thesis
    by (simp add: fire_timer_def timer_callback_def unsettled_ok_def update_proc_def)
next
  case (Elapse d)
  assume "unsettled_ok h"
  with Elapse show ?thesis by (simp add: unsettled_ok_def)
next
  case (TerminalInput i t)
  assume u: "unsettled_ok h"
  have "unsettled_ok (update_proc q (\<lambda>c. if has_stdin c then stdin_write (normalizedText t) c else c) g)"
    if "unsettled_ok g" for q g
    by (rule unsettled_ok_update [OF _ that]) simp
  from this [of h] u TerminalInput show ?thesis
    by (simp add: terminal_input_def split: option.splits)
next
  case (TerminalComplete i r)
  assume "unsettled_ok h"
  with TerminalComplete show ?thesis
    by (simp add: terminal_complete_def unsettled_ok_def split: option.splits)
next
  case (CloseTerminal i)
  assume "unsettled_ok h"
  with CloseTerminal show ?thesis
    by (simp add: close_terminal_def unsettled_ok_window_closes split: option.splits)
next
  case (WindowClosed i)
  assume "unsettled_ok h"
  with WindowClosed show ?thesis
    by (simp add: unsettled_ok_window_closes split: option.splits)
qed

lemma results_ok_step:
  assumes "handles_ok h" and "unsettled_ok h" and "results_ok h"
  shows "results_ok (step pf e h)"
  unfolding results_ok_def
proof (intro allI impI)
  fix i td' r
  assume "objects (step pf e h) i = Some td' \<and> lastExecutionResult td' = Some r"
  then have o: "objects (step pf e h) i = Some td'" and l: "lastExecutionResult td' = Some r"
    by simp_all
  from result_origin [OF o l] show "\<exists>p c. result_from (step pf e h) i r p c"
  proof
    assume "\<exists>td. objects h i = Some td \<and> lastExecutionResult td = Some r"
    with assms(3) obtain p c where w: "result_from h i r p c"
      unfolding results_ok_def by blast
    then have pc: "procs h p = Some c" "closed c"
      by (simp_all add: result_from_def)
    from closed_child_frozen [OF assms(1) pc, of pf e] obtain c' where
      "procs (step pf e h) p = Some c'" "closed c'" "owner c' = owner c"
      "stdout_acc c' = stdout_acc c" "stderr_acc c' = stderr_acc c" "settled c' = settled c"
      using pc by (auto simp: verdict_def)
    with w have "result_from (step pf e h) i r p c'"
      by (simp add: result_from_def)
    then show ?thesis by blast
  next
    assume "\<exists>p x c td. e = ChildClose p x \<and> procs h p = Some c \<and> \<not> closed c \<and> owner c = i
             \<and> objects h i = Some td \<and> r = completion_of c x td"
    then obtain p x c td where e: "e = ChildClose p x" and pc: "procs h p = Some c" "\<not> closed c"
      and ow: "owner c = i" and ob: "objects h i = Some td" and r: "r = completion_of c x td"
      by blast
    from assms(2) pc have sc: "settled c = None \<or> is_failure (settled c)"
      by (auto simp: unsettled_ok_def settle_ok_def)
    from ob ow have ob': "objects h (owner c) = Some td" by simp
    let ?c' = "c\<lparr>settled := (case settled c of None \<Rightarrow> Some (completion_of c x td)
                                | Some v \<Rightarrow> Some v),
                   running := False, closed := True\<rparr>"
    have "result_from (step pf e h) i r p ?c'"
      unfolding e result_from_def close_settles [OF pc ob']
      using sc ow r
      by (auto simp: completion_of_def is_failure_def split: option.splits exec_result.splits)
    then show ?thesis by blast
  qed
qed

lemma reach_ok_step: "reach_ok h \<Longrightarrow> reach_ok (step pf e h)"
  by (simp add: reach_ok_def handles_ok_step unsettled_ok_step results_ok_step)

lemma reach_ok_run: "reach_ok h \<Longrightarrow> reach_ok (run pf es h)"
  by (induction es arbitrary: h) (simp_all add: reach_ok_step)

lemma reach_ok_initial: "reach_ok initial_host"
  using handles_ok_initial
  by (simp add: reach_ok_def unsettled_ok_def results_ok_def initial_host_def)

text \<open>
  In a reachable state, a query that answers with \<open>isComplete\<close> true returns the echo
  followed by everything streamed, and the completion record of a closed child.
\<close>

lemma catch_up_when_complete:
  assumes "h0 = run pf evs0 initial_host"
      and "show_execution_modal language code h0 = (i, h1)"
      and "h = run pf evs h1"
      and "get_terminal_buffer i h = Some r" and "reply_isComplete r"
  shows "reply_buffer r = command_echo code @ streamed i (sent h)
       \<and> (\<exists>p c x w. procs h p = Some c \<and> owner c = i \<and> closed c
             \<and> reply_result r = Some (Completion (stdout_acc c) (stderr_acc c) x w)
             \<and> (\<not> is_failure (settled c) \<longrightarrow> settled c = reply_result r))"
proof -
  have fresh0: "ids_fresh h0" and stream0: "stream_ok h0"
    unfolding assms(1)
    by (rule ids_fresh_run [OF ids_fresh_initial],
        rule stream_ok_run [OF ids_fresh_initial stream_ok_initial])
  from assms(2) have i: "i = nextTerminalId h0" and h1: "h1 = step pf (ShowExecutionModal language code) h0"
    by (auto simp: show_execution_modal_def Let_def)
  from fresh0 i have "objects h0 i = None"
    by (auto simp: ids_fresh_def)
  with stream0 have s0: "streamed i (sent h0) = []"
    by (simp add: stream_ok_def)
  have fresh1: "ids_fresh h1"
    unfolding h1 by (rule ids_fresh_step [OF fresh0])
  from assms(2) obtain td1 where td1: "objects h1 i = Some td1" "buffer td1 = command_echo code"
    and "sent h1 = sent h0"
    by (auto simp: show_execution_modal_def Let_def)
  with s0 have b1: "window_usable td1 \<longrightarrow> buffer td1 = command_echo code @ streamed i (sent h1)"
    by simp
  from echo_run [OF fresh1 td1(1) b1, of pf evs] obtain td where
    td: "objects h i = Some td"
    and b: "window_usable td \<longrightarrow> buffer td = command_echo code @ streamed i (sent h)"
    unfolding assms(3) by blast
  have reach: "h = run pf (evs0 @ ShowExecutionModal language code # evs) initial_host"
    by (simp add: run_append assms(1,3) h1)
  have "stream_ok h"
    unfolding reach by (rule stream_ok_run [OF ids_fresh_initial stream_ok_initial])
  moreover from assms(4) td have mem: "i \<in> terminals h"
    and r: "r = \<lparr>reply_buffer = buffer td, reply_isComplete = isExecutionComplete td,
                  reply_result = lastExecutionResult td\<rparr>"
    by (auto simp: get_terminal_buffer_def terminals_get_def split: option.splits if_splits)
  ultimately have "window_usable td"
    using td by (auto simp: stream_ok_def)
  with b r have buf: "reply_buffer r = command_echo code @ streamed i (sent h)"
    by simp
  have "sessions_ok h"
    unfolding reach by (rule sessions_ok_run [OF sessions_ok_initial])
  with td assms(5) r obtain res where res: "lastExecutionResult td = Some res"
    by (auto simp: sessions_ok_def session_ok_def)
  have "reach_ok h"
    unfolding reach by (rule reach_ok_run [OF reach_ok_initial])
  with td res obtain p c where "result_from h i res p c"
    unfolding reach_ok_def results_ok_def by blast
  with res r have "\<exists>p c x w. procs h p = Some c \<and> owner c = i \<and> closed c
             \<and> reply_result r = Some (Completion (stdout_acc c) (stderr_acc c) x w)
             \<and> (\<not> is_failure (settled c) \<longrightarrow> settled c = reply_result r)"
    unfolding result_from_def by auto
  with buf show ?thesis by simp
qed

lemma show_on_initial:
  "show_execution_modal ''bash'' ''read x'' initial_host =
     (1, step Linux (ShowExecutionModal ''bash'' ''read x'') initial_host)"
  by (simp add: show_execution_modal_def initial_host_def Let_def)

lemma finished_host_buffer:
  "get_terminal_buffer 1 finished_host =
     Some \<lparr>reply_buffer = command_echo ''read x'' @ ''hi'', reply_isComplete = True,
           reply_result = Some (Completion ''hi'' [] (Some 0) False)\<rparr>"
  by (simp add: finished_host_eq get_terminal_buffer_def terminals_get_def running_session_def)

lemma stays_complete_step:
  assumes "ids_fresh h" and "objects h i = Some td" and "isExecutionComplete td"
      and "\<not> executes_on i e"
  shows "\<exists>td'. objects (step pf e h) i = Some td' \<and> isExecutionComplete td'"
proof -
  from buffer_step [OF assms(1,2), of pf e] obtain td' where
    td': "objects (step pf e h) i = Some td'" by blast
  have "isExecutionComplete td'"
  proof (rule ccontr)
    assume "\<not> isExecutionComplete td'"
    from uncompletes_only_on_execute [OF assms(2) td' assms(3) this assms(1)]
    have "executes_on i e" by auto
    with assms(4) show False by simp
  qed
  with td' show ?thesis by blast
qed

lemma stays_complete_run:
  assumes "ids_fresh h" and "objects h i = Some td" and "isExecutionComplete td"
      and "\<forall>e \<in> set es. \<not> executes_on i e"
  shows "\<exists>td'. objects (run pf es h) i = Some td' \<and> isExecutionComplete td'"
  using assms
proof (induction es arbitrary: h td)
  case Nil
  then show ?case by simp
next
  case (Cons e es)
  from Cons.prems(4) have ne: "\<not> executes_on i e" and rest: "\<forall>e \<in> set es. \<not> executes_on i e"
    by simp_all
  from stays_complete_step [OF Cons.prems(1-3) ne, of pf] obtain t1 where
    t1: "objects (step pf e h) i = Some t1" "isExecutionComplete t1" by blast
  from Cons.IH [OF ids_fresh_step [OF Cons.prems(1)] t1 rest] show ?case by simp
qed

lemma close_completes:
  assumes "procs h p = Some c" and "\<not> closed c" and "objects h (owner c) = Some td"
  shows "\<exists>td'. objects (step pf (ChildClose p x) h) (owner c) = Some td' \<and> isExecutionComplete td'"
  using assms
  by (simp add: emitting_def on_close_def child_ends_def Let_def)

text \<open>
  Claim C4, amended. Take a session created by \<open>show-execution-modal\<close> for \<open>code\<close> in
  any reachable state, let a child of it close, and let any events follow that are not
  an \<open>execute-code\<close> call on the session and leave it in the table. Then
  \<open>get-terminal-buffer\<close> answers with \<open>isComplete\<close> true, with a buffer that is the
  echo of \<open>code\<close> followed by the text of all output messages sent to the session's
  window, in the order they were sent, and with the completion record of a closed child
  of the session, built from the child's accumulated stdout and stderr. That record is
  the value the child's call resolved with, which the renderer relays as the completion
  message, unless the child's \<open>error\<close> event had resolved the call before it closed.
\<close>

theorem catch_up_after_close:
  assumes "h0 = run pf evs0 initial_host"
      and "show_execution_modal language code h0 = (i, h1)"
      and "h = run pf evs h1"
      and "procs h p = Some c" and "owner c = i" and "\<not> closed c"
      and "h' = run pf evs' (step pf (ChildClose p x) h)"
      and "\<forall>e \<in> set evs'. \<not> executes_on i e"
      and "i \<in> terminals h'"
  shows "\<exists>r. get_terminal_buffer i h' = Some r \<and> reply_isComplete r
           \<and> reply_buffer r = command_echo code @ streamed i (sent h')
           \<and> (\<exists>q d y w. procs h' q = Some d \<and> owner d = i \<and> closed d
                \<and> reply_result r = Some (Completion (stdout_acc d) (stderr_acc d) y w)
                \<and> (\<not> is_failure (settled d) \<longrightarrow> settled d = reply_result r))"
proof -
  have fresh0: "ids_fresh h0"
    unfolding assms(1) by (rule ids_fresh_run [OF ids_fresh_initial])
  from assms(2) have h1: "h1 = step pf (ShowExecutionModal language code) h0"
    by (auto simp: show_execution_modal_def Let_def)
  have fresh1: "ids_fresh h1"
    unfolding h1 by (rule ids_fresh_step [OF fresh0])
  from assms(2) obtain td1 where td1: "objects h1 i = Some td1"
    by (auto simp: show_execution_modal_def Let_def)
  from buffer_run [OF fresh1 td1, of pf evs] obtain td where td: "objects h i = Some td"
    unfolding assms(3) by blast
  have fresh: "ids_fresh h"
    unfolding assms(3) by (rule ids_fresh_run [OF fresh1])
  from td assms(5) have own: "objects h (owner c) = Some td" by simp
  from close_completes [OF assms(4,6) own, of pf x] assms(5) obtain td2 where
    td2: "objects (step pf (ChildClose p x) h) i = Some td2" "isExecutionComplete td2"
    by auto
  from stays_complete_run [OF ids_fresh_step [OF fresh] td2 assms(8), of pf] obtain td' where
    td': "objects h' i = Some td'" "isExecutionComplete td'"
    unfolding assms(7) by blast
  let ?r = "\<lparr>reply_buffer = buffer td', reply_isComplete = isExecutionComplete td',
             reply_result = lastExecutionResult td'\<rparr>"
  from td' assms(9) have g: "get_terminal_buffer i h' = Some ?r"
    by (simp add: get_terminal_buffer_def terminals_get_def)
  from td' have c: "reply_isComplete ?r" by simp
  have run': "h' = run pf (evs @ ChildClose p x # evs') h1"
    by (simp add: run_append assms(3,7))
  from catch_up_when_complete [OF assms(1,2) run' g c] g c show ?thesis
    by blast
qed

lemma printing_host_child:
  "procs printing_host 0 = Some (bash_child\<lparr>stdout_acc := ''hi''\<rparr>)"
  by (simp add: printing_host_def running_host_eq emitting_def on_data_def send_to_window_def
      update_term_def update_proc_def bash_child_def new_child_def Let_def)

lemma printing_host_run:
  "printing_host = run Linux [ExecuteCode (SpawnReturns True) ''read x'' ''bash'' (Some 1),
      ChildData Stdout 0 ''hi''] (step Linux (ShowExecutionModal ''bash'' ''read x'') initial_host)"
  by (simp add: printing_host_def running_host_def)

lemma relayed_host_run:
  "relayed_host = run Linux [TerminalComplete 1 (Completion ''hi'' [] (Some 0) False)]
      (step Linux (ChildClose 0 (Some 0)) printing_host)"
  by (simp add: relayed_host_def finished_host_def printing_host_def)

lemma relayed_host_eq:
  "relayed_host = finished_host\<lparr>sent := [(1, TerminalOutput Stdout ''hi''),
      (1, TerminalCompleteMsg (Completion ''hi'' [] (Some 0) False))]\<rparr>"
  by (simp add: relayed_host_def finished_host_eq terminal_complete_def terminals_get_def
      send_to_window_def running_session_def)

lemma relayed_host_buffer:
  "get_terminal_buffer 1 relayed_host =
     Some \<lparr>reply_buffer = command_echo ''read x'' @ ''hi'', reply_isComplete = True,
           reply_result = Some (Completion ''hi'' [] (Some 0) False)\<rparr>"
  by (simp add: relayed_host_eq finished_host_eq get_terminal_buffer_def terminals_get_def
      running_session_def)

theorem catch_up_after_close_witness:
  "initial_host = run Linux [] initial_host
   \<and> show_execution_modal ''bash'' ''read x'' initial_host =
       (1, step Linux (ShowExecutionModal ''bash'' ''read x'') initial_host)
   \<and> printing_host = run Linux [ExecuteCode (SpawnReturns True) ''read x'' ''bash'' (Some 1),
        ChildData Stdout 0 ''hi''] (step Linux (ShowExecutionModal ''bash'' ''read x'') initial_host)
   \<and> procs printing_host 0 = Some (bash_child\<lparr>stdout_acc := ''hi''\<rparr>)
   \<and> owner (bash_child\<lparr>stdout_acc := ''hi''\<rparr>) = 1 \<and> \<not> closed (bash_child\<lparr>stdout_acc := ''hi''\<rparr>)
   \<and> relayed_host = run Linux [TerminalComplete 1 (Completion ''hi'' [] (Some 0) False)]
        (step Linux (ChildClose 0 (Some 0)) printing_host)
   \<and> \<not> executes_on 1 (TerminalComplete 1 (Completion ''hi'' [] (Some 0) False))
   \<and> 1 \<in> terminals relayed_host
   \<and> get_terminal_buffer 1 relayed_host =
       Some \<lparr>reply_buffer = command_echo ''read x'' @ ''hi'', reply_isComplete = True,
             reply_result = Some (Completion ''hi'' [] (Some 0) False)\<rparr>
   \<and> command_echo ''read x'' @ ''hi'' = command_echo ''read x'' @ streamed 1 (sent relayed_host)
   \<and> (\<exists>q d y w. procs relayed_host q = Some d \<and> owner d = 1 \<and> closed d
         \<and> Some (Completion ''hi'' [] (Some 0) False)
             = Some (Completion (stdout_acc d) (stderr_acc d) y w)
         \<and> (\<not> is_failure (settled d) \<longrightarrow> settled d = Some (Completion ''hi'' [] (Some 0) False)))"
proof -
  let ?c = "bash_child\<lparr>stdout_acc := ''hi''\<rparr>"
  let ?r = "\<lparr>reply_buffer = command_echo ''read x'' @ ''hi'', reply_isComplete = True,
             reply_result = Some (Completion ''hi'' [] (Some 0) False)\<rparr>"
  have a: "initial_host = run Linux [] initial_host"
    by simp
  have o: "owner ?c = 1" and nc: "\<not> closed ?c"
    by (simp_all add: bash_child_def new_child_def)
  have ne: "\<forall>e \<in> set [TerminalComplete 1 (Completion ''hi'' [] (Some 0) False)]. \<not> executes_on 1 e"
    by simp
  have mem: "1 \<in> terminals relayed_host"
    by (simp add: relayed_host_eq finished_host_eq)
  from catch_up_after_close [OF a show_on_initial printing_host_run printing_host_child o nc
      relayed_host_run ne mem]
  obtain r where r: "get_terminal_buffer 1 relayed_host = Some r"
    and concl: "reply_buffer r = command_echo ''read x'' @ streamed 1 (sent relayed_host)
      \<and> (\<exists>q d y w. procs relayed_host q = Some d \<and> owner d = 1 \<and> closed d
         \<and> reply_result r = Some (Completion (stdout_acc d) (stderr_acc d) y w)
         \<and> (\<not> is_failure (settled d) \<longrightarrow> settled d = reply_result r))"
    by blast
  from r relayed_host_buffer have "r = ?r" by simp
  with concl have "command_echo ''read x'' @ ''hi'' = command_echo ''read x'' @ streamed 1 (sent relayed_host)
   \<and> (\<exists>q d y w. procs relayed_host q = Some d \<and> owner d = 1 \<and> closed d
         \<and> Some (Completion ''hi'' [] (Some 0) False)
             = Some (Completion (stdout_acc d) (stderr_acc d) y w)
         \<and> (\<not> is_failure (settled d) \<longrightarrow> settled d = Some (Completion ''hi'' [] (Some 0) False)))"
    unfolding \<open>r = ?r\<close> buffer_reply.select_convs by blast
  moreover have "\<not> executes_on 1 (TerminalComplete 1 (Completion ''hi'' [] (Some 0) False))"
    by simp
  ultimately show ?thesis
    using a show_on_initial printing_host_run printing_host_child o nc relayed_host_run mem
      relayed_host_buffer
    by blast
qed

text \<open>
  After a spawn error followed by the child's close, the session is complete and the
  query returns the ordinary completion record with exit code \<open>-2\<close>, while the call
  resolved with the error and the completion message relayed to the window carries
  that error. And a session that had completed answers with \<open>isComplete\<close> false and no
  result once it has been executed again.
\<close>

theorem catch_up_counterexample:
  "map_option settled (procs failed_closed_host 0) =
     Some (Some (Failure ''spawn script ENOENT'' (Some []) (Some [])))
   \<and> sent failed_closed_host =
       [(1, TerminalCompleteMsg (Failure ''spawn script ENOENT'' (Some []) (Some [])))]
   \<and> get_terminal_buffer 1 failed_closed_host =
       Some \<lparr>reply_buffer = command_echo ''read x'', reply_isComplete = True,
             reply_result = Some (Completion [] [] (Some (- 2)) False)\<rparr>
   \<and> get_terminal_buffer 1 finished_host =
       Some \<lparr>reply_buffer = command_echo ''read x'' @ ''hi'', reply_isComplete = True,
             reply_result = Some (Completion ''hi'' [] (Some 0) False)\<rparr>
   \<and> get_terminal_buffer 1 rerun_host =
       Some \<lparr>reply_buffer = command_echo ''read x'' @ ''hi'', reply_isComplete = False,
             reply_result = None\<rparr>"
proof -
  have f: "failed_closed_host = \<lparr>terminals = {1},
     objects = (\<lambda>_. None)(1 := Some (running_session\<lparr>activeProcess := None,
        isExecutionComplete := True,
        lastExecutionResult := Some (Completion [] [] (Some (- 2)) False)\<rparr>)),
     nextTerminalId = 2,
     procs = (\<lambda>_. None)(0 := Some (bash_child\<lparr>running := False, closed := True,
        settled := Some (Failure ''spawn script ENOENT'' (Some []) (Some []))\<rparr>)),
     nextPid = 1, timers = [], now = 0,
     sent = [(1, TerminalCompleteMsg (Failure ''spawn script ENOENT'' (Some []) (Some [])))]\<rparr>"
    by (simp add: failed_closed_host_def failed_host_def running_host_eq emitting_def on_error_def
        on_close_def child_ends_def resolve_def completion_of_def terminal_complete_def
        terminals_get_def send_to_window_def update_term_def update_proc_def
        running_session_def bash_child_def new_child_def Let_def)
  have a: "map_option settled (procs failed_closed_host 0) =
       Some (Some (Failure ''spawn script ENOENT'' (Some []) (Some [])))
     \<and> sent failed_closed_host =
       [(1, TerminalCompleteMsg (Failure ''spawn script ENOENT'' (Some []) (Some [])))]
     \<and> get_terminal_buffer 1 failed_closed_host =
       Some \<lparr>reply_buffer = command_echo ''read x'', reply_isComplete = True,
             reply_result = Some (Completion [] [] (Some (- 2)) False)\<rparr>"
    by (simp add: f get_terminal_buffer_def terminals_get_def running_session_def)
  have c: "get_terminal_buffer 1 rerun_host =
       Some \<lparr>reply_buffer = command_echo ''read x'' @ ''hi'', reply_isComplete = False,
             reply_result = None\<rparr>"
    by (simp add: rerun_host_eq get_terminal_buffer_def terminals_get_def running_session_def)
  from a finished_host_buffer c show ?thesis by blast
qed

end
